theory Spec2Isabelle
  imports Main "HOL-Library.Word"
begin

unbundle bit_operations_syntax

text \<open>
  The import of image and caption pairs from a parquet file on the Hugging Face hub into a
  dataset directory.  The model follows the three sources of the pipeline:
  \<^item> the route (the code after the dialog in \<open>ImportParquetModal.tsx\<close>): the Reference
    Parser \<open>parseHFParquetPath\<close>, the Remote Fetcher \<open>downloadHFFile\<close>, the Content Validator
    \<open>maybeGunzip\<close>, \<open>isParquetBuffer\<close>, \<open>downloadHFFileAsBuffer\<close>, and \<open>uniquePath\<close>;
  \<^item> the helper script \<open>import-hf-parquet.mjs\<close>: the Row Extractor, the File Writer and
    the row loop of \<open>main\<close>, with its own fetcher;
  \<^item> the diagnostic script \<open>verify-hf-parquet-download.mjs\<close>: \<open>isParquet\<close>.

  An exception is a value \<open>Inl e\<close> of a sum type.  What the code takes from its platform
  without the sources saying what it is (the network, \<open>zlib\<close>, the MD5 digest, the sniffing
  of file types, the decoding of the parquet file, the permissions of the file system) is
  a parameter of the model; the functions of Node.js and of the language that the
  statements depend on (\<open>path\<close>, \<open>Buffer.toString\<close>, the string methods, the regular
  expressions) are modelled after their documentation.
\<close>

section \<open>Strings and byte buffers\<close>

text \<open>
  A JavaScript string is modelled as a \<^typ>\<open>string\<close>: one \<^typ>\<open>char\<close> per UTF-16 code
  unit, for code units below 256.  A \<open>Buffer\<close>, \<open>Uint8Array\<close> or \<open>ArrayBuffer\<close> is a list
  of 8-bit words.
\<close>

type_synonym byte = "8 word"
type_synonym bytes = "byte list"

text \<open>\<open>arr[i]\<close>: \<open>undefined\<close> (here \<open>None\<close>) out of range.\<close>

definition nth_opt :: "'a list \<Rightarrow> nat \<Rightarrow> 'a option" where
  "nth_opt xs i = (if i < length xs then Some (xs ! i) else None)"

text \<open>\<open>String.prototype.split(sep)\<close> for a one-character separator: the empty string
  splits into one empty piece, and adjacent separators give empty pieces.\<close>

fun split_on :: "char \<Rightarrow> string \<Rightarrow> string list" where
  "split_on c [] = [[]]"
| "split_on c (x # xs) =
     (if x = c then [] # split_on c xs
      else (case split_on c xs of w # ws \<Rightarrow> (x # w) # ws | [] \<Rightarrow> [[x]]))"

text \<open>\<open>Array.prototype.join(sep)\<close>.\<close>

fun join_with :: "string \<Rightarrow> string list \<Rightarrow> string" where
  "join_with sep [] = []"
| "join_with sep [s] = s"
| "join_with sep (s # t # ss) = s @ sep @ join_with sep (t # ss)"

text \<open>\<open>.filter(Boolean)\<close> on an array of strings drops the empty ones.\<close>

definition filter_Boolean :: "string list \<Rightarrow> string list" where
  "filter_Boolean ps = filter (\<lambda>s. s \<noteq> []) ps"

text \<open>The white space and line terminators that \<open>trim()\<close> and the regular expression
  class \<open>\s\<close> match, among the code units below 256: TAB, LF, VT, FF, CR, SPACE, NBSP.\<close>

definition is_space :: "char \<Rightarrow> bool" where
  "is_space c = (c \<in> {CHR 0x09, CHR 0x0A, CHR 0x0B, CHR 0x0C, CHR 0x0D, CHR 0x20, CHR 0xA0})"

definition trim :: "string \<Rightarrow> string" where
  "trim s = rev (dropWhile is_space (rev (dropWhile is_space s)))"

text \<open>\<open>toLowerCase()\<close> on code units below 256: A-Z, and the Latin-1 capitals
  0xC0-0xDE except the multiplication sign 0xD7, move up by 0x20.\<close>

definition lower_char :: "char \<Rightarrow> char" where
  "lower_char c =
     (let n = (of_char c :: nat) in
      if (0x41 \<le> n \<and> n \<le> 0x5A) \<or> (0xC0 \<le> n \<and> n \<le> 0xDE \<and> n \<noteq> 0xD7)
      then char_of (n + 0x20) else c)"

definition toLowerCase :: "string \<Rightarrow> string" where
  "toLowerCase s = map lower_char s"

definition startsWith :: "string \<Rightarrow> string \<Rightarrow> bool" where
  "startsWith s p = (take (length p) s = p)"

definition endsWith :: "string \<Rightarrow> string \<Rightarrow> bool" where
  "endsWith s p = (length p \<le> length s \<and> drop (length s - length p) s = p)"

text \<open>\<open>s.includes(p)\<close>: \<open>p\<close> occurs in \<open>s\<close> as a contiguous run.\<close>

fun str_includes :: "string \<Rightarrow> string \<Rightarrow> bool" where
  "str_includes [] p = (p = [])"
| "str_includes (x # xs) p = (startsWith (x # xs) p \<or> str_includes xs p)"

text \<open>Removing a literal prefix, as an anchored regular expression does.\<close>

definition strip_prefix :: "string \<Rightarrow> string \<Rightarrow> string option" where
  "strip_prefix p s = (if startsWith s p then Some (drop (length p) s) else None)"

definition strip_opt_prefix :: "string \<Rightarrow> string \<Rightarrow> string" where
  "strip_opt_prefix p s = (case strip_prefix p s of Some r \<Rightarrow> r | None \<Rightarrow> s)"

section \<open>Content Validator: the parquet magic check\<close>

text \<open>
  \<^verbatim>\<open>buf.toString('ascii')\<close> decodes a Node.js buffer one byte per character and, as the
  Node.js documentation of the \<open>'ascii'\<close> encoding states, unsets the highest bit of each
  byte before decoding.  The decoded string is represented by its code units.
\<close>

definition toString_ascii :: "bytes \<Rightarrow> bytes" where
  "toString_ascii buf = map (\<lambda>b. b AND 0x7F) buf"

text \<open>The code units of the string literal \<open>'PAR1'\<close>.\<close>

definition PAR1 :: bytes where
  "PAR1 = [0x50, 0x41, 0x52, 0x31]"

text \<open>
  \<^verbatim>\<open>
  function isParquetBuffer(buf: Buffer): boolean {
    if (!buf || buf.length < 8) return false;
    return buf.subarray(0, 4).toString('ascii') === 'PAR1' &&
           buf.subarray(buf.length - 4).toString('ascii') === 'PAR1';
  }\<close>
  A missing buffer (\<open>null\<close> or \<open>undefined\<close>) is \<open>None\<close>.  The function \<open>isParquet\<close> of
  \<open>verify-hf-parquet-download.mjs\<close> has the same body.
\<close>

definition isParquetBuffer :: "bytes option \<Rightarrow> bool" where
  "isParquetBuffer b =
     (case b of
        None \<Rightarrow> False
      | Some buf \<Rightarrow>
          if length buf < 8 then False
          else toString_ascii (take 4 buf) = PAR1 \<and>
               toString_ascii (drop (length buf - 4) buf) = PAR1)"

definition isParquet :: "bytes option \<Rightarrow> bool" where
  "isParquet b =
     (case b of
        None \<Rightarrow> False
      | Some buf \<Rightarrow>
          if length buf < 8 then False
          else toString_ascii (take 4 buf) = PAR1 \<and>
               toString_ascii (drop (length buf - 4) buf) = PAR1)"

section \<open>Reference Parser\<close>

datatype HFRepoType = Auto | Datasets | Models

record HFParquetRef =
  repoId :: string
  revision :: string
  filePath :: string
  repoType :: HFRepoType

text \<open>The two results of one request (\<open>HFDownloadOk\<close> and \<open>HFDownloadErr\<close> of the
  route).\<close>

record HFDownloadOk =
  ok_buf :: bytes
  ok_status :: nat
  ok_statusText :: string
  ok_url :: string
  ok_finalUrl :: string
  ok_contentType :: "string option"
  ok_contentEncoding :: "string option"

record HFDownloadErr =
  err_status :: nat
  err_statusText :: string
  err_url :: string
  err_hfErrorMessage :: string
  err_bodyPreview :: string

datatype HFDownloadAttempt = AttemptOk HFDownloadOk | AttemptErr HFDownloadErr

text \<open>The errors the pipeline throws, one constructor per \<open>throw\<close> of the source (the comment
  gives the start of its message), with the values the message is built from.\<close>

datatype error =
    InvalidPath          \<comment> \<open>Invalid Hugging Face parquet path. Expected: org/repo/...\<close>
  | InvalidUrl           \<comment> \<open>Invalid Hugging Face parquet URL. Expected: .../(resolve|blob)/...\<close>
  | NotParquetPath       \<comment> \<open>The Hugging Face file path must point to a .parquet file\<close>
  | NoUniqueName         \<comment> \<open>Unable to find a unique filename after many attempts\<close>
  | FetchRejected        \<comment> \<open>\<open>fetch\<close> itself rejected: no response at all\<close>
  | DownloadFailed nat string string string
      \<comment> \<open>Failed to download from Hugging Face (status statusText) at url: detail\<close>
  | DownloadFailedAuto HFDownloadErr HFDownloadErr
      \<comment> \<open>Failed to download from Hugging Face. Tried: datasets attempt, models attempt\<close>
  | InvalidParquet string string "string option"
      \<comment> \<open>Invalid parquet file received from Hugging Face. Requested, Final URL, content-type\<close>
  | HFDownloadFailed nat string string
      \<comment> \<open>HF download failed (status statusText): text (the helper script)\<close>
  | CouldNotExtractImageBytes
      \<comment> \<open>Could not extract image bytes from parquet row (expected image.bytes or image.path)\<close>
  | WriteFailed string   \<comment> \<open>\<open>fs.writeFileSync\<close> threw at this path\<close>
  | MissingArgs          \<comment> \<open>Missing required args: --datasetDir and --parquetFile\<close>
  | DecodeFailed         \<comment> \<open>reading or decoding the parquet file threw\<close>

text \<open>The regular expression \<^verbatim>\<open>/^https?:\/\/(www\.)?huggingface\.co\//\<close>: the rest of the
  input after a match at its start, if there is one.  Each optional group is followed by a
  literal that starts with another character, so taking the group when it is there is the
  only way to match.\<close>

definition match_hf_host :: "string \<Rightarrow> string option" where
  "match_hf_host s =
     (case strip_prefix ''http'' s of
        None \<Rightarrow> None
      | Some r1 \<Rightarrow>
          (case strip_prefix ''://'' (strip_opt_prefix ''s'' r1) of
             None \<Rightarrow> None
           | Some r2 \<Rightarrow> strip_prefix ''huggingface.co/'' (strip_opt_prefix ''www.'' r2)))"

definition strip_hf_host :: "string \<Rightarrow> string" where
  "strip_hf_host s = (case match_hf_host s of Some r \<Rightarrow> r | None \<Rightarrow> s)"

text \<open>\<open>parts\<close> of \<open>parseHFParquetPath\<close>: the non-empty segments of the trimmed input without
  its host prefix.\<close>

definition hf_parts :: "string \<Rightarrow> string list" where
  "hf_parts inputRaw = filter_Boolean (split_on CHR ''/'' (strip_hf_host (trim inputRaw)))"

text \<open>\<open>const [repoName, rev] = repoWithMaybeRevision.split('@')\<close>, then
  \<open>if (repoName) repo = repoName; if (rev) revision = rev;\<close>.\<close>

definition split_revision :: "string \<Rightarrow> string \<times> string" where
  "split_revision repoWithMaybeRevision =
     (if CHR ''@'' \<in> set repoWithMaybeRevision then
        (let ps = split_on CHR ''@'' repoWithMaybeRevision;
             repoName = nth_opt ps 0;
             rev = nth_opt ps 1
         in ((case repoName of Some r \<Rightarrow> if r \<noteq> [] then r else repoWithMaybeRevision
                             | None \<Rightarrow> repoWithMaybeRevision),
             (case rev of Some r \<Rightarrow> if r \<noteq> [] then r else ''main'' | None \<Rightarrow> ''main'')))
      else (repoWithMaybeRevision, ''main''))"

text \<open>\<open>repoType\<close> and \<open>i\<close> after the test \<open>parts[0] === 'datasets'\<close>.\<close>

definition initial_repoType :: "string list \<Rightarrow> HFRepoType" where
  "initial_repoType parts = (if nth_opt parts 0 = Some ''datasets'' then Datasets else Auto)"

definition repo_index :: "string list \<Rightarrow> nat" where
  "repo_index parts = (if nth_opt parts 0 = Some ''datasets'' then 1 else 0)"

text \<open>\<open>parts[i + 2] === 'resolve' || parts[i + 2] === 'blob'\<close>.\<close>

definition isResolveOrBlob :: "string list \<Rightarrow> nat \<Rightarrow> bool" where
  "isResolveOrBlob parts i =
     (nth_opt parts (i + 2) = Some ''resolve'' \<or> nth_opt parts (i + 2) = Some ''blob'')"

definition parse_parts :: "string list \<Rightarrow> error + HFParquetRef" where
  "parse_parts parts =
     (if length parts < 3 then Inl InvalidPath
      else
        let repoType0 = initial_repoType parts;
            i = repo_index parts
        in
          if isResolveOrBlob parts i then
            (if length parts < i + 5 then Inl InvalidUrl
             else
               let org = parts ! i;
                   repo = parts ! (i + 1);
                   rev = (if parts ! (i + 3) \<noteq> [] then parts ! (i + 3) else ''main'');
                   fp = join_with ''/'' (drop (i + 4) parts)
               in
                 if \<not> endsWith (toLowerCase fp) ''.parquet'' then Inl NotParquetPath
                 else Inr \<lparr> repoId = org @ ''/'' @ repo, revision = rev, filePath = fp,
                            repoType = (if repoType0 = Auto then Models else repoType0) \<rparr>)
          else
            (if length parts < i + 3 then Inl InvalidPath
             else
               let org = parts ! i;
                   (repo, rev) = split_revision (parts ! (i + 1));
                   fp = join_with ''/'' (drop (i + 2) parts)
               in
                 if \<not> endsWith (toLowerCase fp) ''.parquet'' then Inl NotParquetPath
                 else Inr \<lparr> repoId = org @ ''/'' @ repo, revision = rev, filePath = fp,
                            repoType = repoType0 \<rparr>))"

definition parseHFParquetPath :: "string \<Rightarrow> error + HFParquetRef" where
  "parseHFParquetPath inputRaw = parse_parts (hf_parts inputRaw)"

section \<open>Remote Fetcher (the route)\<close>

text \<open>\<open>encodeURIComponent\<close> on code units below 256: the unreserved characters stay, every
  other one becomes the percent-escapes of its UTF-8 bytes (one byte below 128, two above).\<close>

definition hex_digit :: "nat \<Rightarrow> char" where
  "hex_digit k = ''0123456789ABCDEF'' ! (k mod 16)"

definition percent_byte :: "nat \<Rightarrow> string" where
  "percent_byte n = [CHR ''%'', hex_digit (n div 16), hex_digit n]"

definition uri_unreserved :: "char \<Rightarrow> bool" where
  "uri_unreserved c =
     (c \<in> set ''abcdefghijklmnopqrstuvwxyzABCDEFGHIJKLMNOPQRSTUVWXYZ0123456789-_.!~*()'' \<or>
      c = CHR 0x27)"

definition encode_char :: "char \<Rightarrow> string" where
  "encode_char c =
     (let n = (of_char c :: nat) in
      if uri_unreserved c then [c]
      else if n < 128 then percent_byte n
      else percent_byte (192 + n div 64) @ percent_byte (128 + n mod 64))"

definition encodeURIComponent :: "string \<Rightarrow> string" where
  "encodeURIComponent s = concat (map encode_char s)"

text \<open>\<^verbatim>\<open>p.split('/').filter(Boolean).map(seg => encodeURIComponent(seg)).join('/')\<close>\<close>

definition encodeHFPath :: "string \<Rightarrow> string" where
  "encodeHFPath p =
     join_with ''/'' (map encodeURIComponent (filter_Boolean (split_on CHR ''/'' p)))"

text \<open>
  The token clean-up of \<open>downloadHFFile\<close> (and of the helper script):
  \<^verbatim>\<open>
  token.trim().replace(/^Bearer\s+/i, '').replace(/^"(.+)"$/, '$1')
       .replace(/^'(.+)'$/, '$1').split(/\s+/)[0]\<close>
  The dot of a regular expression matches everything but a line terminator.
\<close>

definition strip_bearer :: "string \<Rightarrow> string" where
  "strip_bearer s =
     (if toLowerCase (take 6 s) = ''bearer'' \<and> drop 6 s \<noteq> [] \<and> is_space (hd (drop 6 s))
      then dropWhile is_space (drop 6 s) else s)"

definition strip_quotes :: "char \<Rightarrow> string \<Rightarrow> string" where
  "strip_quotes q s =
     (if 3 \<le> length s \<and> hd s = q \<and> last s = q \<and>
         list_all (\<lambda>c. c \<noteq> CHR 0x0A \<and> c \<noteq> CHR 0x0D) (butlast (tl s))
      then butlast (tl s) else s)"

definition sanitizeToken :: "string \<Rightarrow> string" where
  "sanitizeToken token =
     takeWhile (\<lambda>c. \<not> is_space c)
       (strip_quotes (CHR 0x27) (strip_quotes (CHR 0x22) (strip_bearer (trim token))))"

text \<open>
  A response of the host, with the fields the code reads: \<open>res.status\<close>, \<open>res.statusText\<close>,
  \<open>res.url\<close>, the three headers, the body as bytes (\<open>res.arrayBuffer()\<close>) and as text
  (\<open>await res.text().catch(() => '')\<close>).
\<close>

record response =
  res_status :: nat
  res_statusText :: string
  res_url :: string
  res_contentType :: "string option"
  res_contentEncoding :: "string option"
  res_xErrorMessage :: "string option"
  res_body :: bytes
  res_text :: string

text \<open>\<open>res.ok\<close>: the status is in the range 200-299.\<close>

definition res_ok :: "response \<Rightarrow> bool" where
  "res_ok r = (200 \<le> res_status r \<and> res_status r \<le> 299)"

datatype fetch_result = Rejected | Responded response

text \<open>
  The network is what \<open>fetch\<close> answers to the \<open>n\<close>-th request of a run, given its URL and
  the value of its \<open>Authorization\<close> header (\<open>None\<close> without one; the other headers are
  the same on every request).  The requests made so far, with their answers, are the state
  that the fetcher threads through.
\<close>

type_synonym network = "nat \<Rightarrow> string \<Rightarrow> string option \<Rightarrow> fetch_result"
type_synonym trace = "(string \<times> string option \<times> fetch_result) list"

definition fetch :: "network \<Rightarrow> trace \<Rightarrow> string \<Rightarrow> string option \<Rightarrow> trace \<times> fetch_result" where
  "fetch net tr url auth =
     (let r = net (length tr) url auth in (tr @ [(url, auth, r)], r))"

text \<open>\<open>tryFetch\<close> of the route: a response that is not \<open>ok\<close> is a value, not an exception.
  The two objects it builds from a response:\<close>

definition ok_attempt :: "string \<Rightarrow> response \<Rightarrow> HFDownloadOk" where
  "ok_attempt url res =
     \<lparr> ok_buf = res_body res, ok_status = res_status res,
       ok_statusText = res_statusText res, ok_url = url,
       ok_finalUrl = (if res_url res \<noteq> [] then res_url res else url),
       ok_contentType = res_contentType res,
       ok_contentEncoding = res_contentEncoding res \<rparr>"

definition err_attempt :: "string \<Rightarrow> response \<Rightarrow> HFDownloadErr" where
  "err_attempt url res =
     \<lparr> err_status = res_status res,
       err_statusText = res_statusText res, err_url = url,
       err_hfErrorMessage = (case res_xErrorMessage res of Some m \<Rightarrow> m | None \<Rightarrow> []),
       err_bodyPreview = take 300 (res_text res) \<rparr>"

definition tryFetch ::
  "network \<Rightarrow> trace \<Rightarrow> string \<Rightarrow> string option \<Rightarrow> trace \<times> (error + HFDownloadAttempt)" where
  "tryFetch net tr url headers =
     (case fetch net tr url headers of
        (tr', Rejected) \<Rightarrow> (tr', Inl FetchRejected)
      | (tr', Responded res) \<Rightarrow>
          if res_ok res then (tr', Inr (AttemptOk (ok_attempt url res)))
          else (tr', Inr (AttemptErr (err_attempt url res))))"

definition withDownloadQuery :: "string \<Rightarrow> string" where
  "withDownloadQuery url =
     (if CHR ''?'' \<in> set url then url @ ''&download=true'' else url @ ''?download=true'')"

text \<open>The loop \<open>for (const u of candidates)\<close> of the branch \<open>if (token)\<close>: \<open>Inr (Some a)\<close>
  when the loop returned \<open>a\<close>, \<open>Inr None\<close> when it ran to its end.\<close>

fun auth_loop ::
  "network \<Rightarrow> string \<Rightarrow> trace \<Rightarrow> string list \<Rightarrow> trace \<times> (error + HFDownloadAttempt option)" where
  "auth_loop net bearer tr [] = (tr, Inr None)"
| "auth_loop net bearer tr (u # us) =
     (case tryFetch net tr u (Some bearer) of
        (tr1, Inl e) \<Rightarrow> (tr1, Inl e)
      | (tr1, Inr (AttemptOk a)) \<Rightarrow> (tr1, Inr (Some (AttemptOk a)))
      | (tr1, Inr (AttemptErr _)) \<Rightarrow>
          (case tryFetch net tr1 u None of
             (tr2, Inl e) \<Rightarrow> (tr2, Inl e)
           | (tr2, Inr (AttemptOk a)) \<Rightarrow> (tr2, Inr (Some (AttemptOk a)))
           | (tr2, Inr (AttemptErr _)) \<Rightarrow> auth_loop net bearer tr2 us))"

text \<open>The loop of the branch without a token.\<close>

fun noauth_loop ::
  "network \<Rightarrow> trace \<Rightarrow> string list \<Rightarrow> trace \<times> (error + HFDownloadAttempt option)" where
  "noauth_loop net tr [] = (tr, Inr None)"
| "noauth_loop net tr (u # us) =
     (case tryFetch net tr u None of
        (tr1, Inl e) \<Rightarrow> (tr1, Inl e)
      | (tr1, Inr (AttemptOk a)) \<Rightarrow> (tr1, Inr (Some (AttemptOk a)))
      | (tr1, Inr (AttemptErr _)) \<Rightarrow> noauth_loop net tr1 us)"

text \<open>\<open>tryWithFallbackAuth\<close>, for the cleaned token: after a loop in which nothing succeeded,
  the last candidate is requested once more and that attempt is the result.\<close>

definition tryWithFallbackAuth ::
  "network \<Rightarrow> string \<Rightarrow> trace \<Rightarrow> string \<Rightarrow> trace \<times> (error + HFDownloadAttempt)" where
  "tryWithFallbackAuth net token tr url =
     (let candidates = [url, withDownloadQuery url] in
      if token \<noteq> [] then
        (case auth_loop net (''Bearer '' @ token) tr candidates of
           (tr', Inl e) \<Rightarrow> (tr', Inl e)
         | (tr', Inr (Some a)) \<Rightarrow> (tr', Inr a)
         | (tr', Inr None) \<Rightarrow> tryFetch net tr' (last candidates) (Some (''Bearer '' @ token)))
      else
        (case noauth_loop net tr candidates of
           (tr', Inl e) \<Rightarrow> (tr', Inl e)
         | (tr', Inr (Some a)) \<Rightarrow> (tr', Inr a)
         | (tr', Inr None) \<Rightarrow> tryFetch net tr' (last candidates) None))"

definition buildUrl :: "string \<Rightarrow> string \<Rightarrow> string \<Rightarrow> HFRepoType \<Rightarrow> string" where
  "buildUrl rId rv fp type =
     (if type = Datasets then ''https://huggingface.co/datasets/'' @ rId @ ''/resolve/'' @ rv @ ''/'' @ fp
      else ''https://huggingface.co/'' @ rId @ ''/resolve/'' @ rv @ ''/'' @ fp)"

text \<open>\<open>out.hfErrorMessage || out.bodyPreview || ''\<close>\<close>

definition err_detail :: "HFDownloadErr \<Rightarrow> string" where
  "err_detail e = (if err_hfErrorMessage e \<noteq> [] then err_hfErrorMessage e else err_bodyPreview e)"

text \<open>\<open>downloadHFFile\<close>.  Its arguments start with the network, the token that
  \<open>getHFToken()\<close> returned (the empty string when there is none) and the requests made so
  far.\<close>

definition downloadHFFile ::
  "network \<Rightarrow> string \<Rightarrow> trace \<Rightarrow> HFParquetRef \<Rightarrow> trace \<times> (error + HFDownloadOk)" where
  "downloadHFFile net rawToken tr0 r =
     (let token = sanitizeToken rawToken;
          rv = encodeURIComponent (if revision r \<noteq> [] then revision r else ''main'');
          fp = encodeHFPath (filePath r)
      in
        if repoType r = Datasets \<or> repoType r = Models then
          (case tryWithFallbackAuth net token tr0 (buildUrl (repoId r) rv fp (repoType r)) of
             (tr, Inl e) \<Rightarrow> (tr, Inl e)
           | (tr, Inr (AttemptOk out)) \<Rightarrow> (tr, Inr out)
           | (tr, Inr (AttemptErr out)) \<Rightarrow>
               (tr, Inl (DownloadFailed (err_status out) (err_statusText out) (err_url out)
                           (err_detail out))))
        else
          (case tryWithFallbackAuth net token tr0 (buildUrl (repoId r) rv fp Datasets) of
             (tr1, Inl e) \<Rightarrow> (tr1, Inl e)
           | (tr1, Inr (AttemptOk out)) \<Rightarrow> (tr1, Inr out)
           | (tr1, Inr (AttemptErr datasetAttempt)) \<Rightarrow>
               (case tryWithFallbackAuth net token tr1 (buildUrl (repoId r) rv fp Models) of
                  (tr2, Inl e) \<Rightarrow> (tr2, Inl e)
                | (tr2, Inr (AttemptOk out)) \<Rightarrow> (tr2, Inr out)
                | (tr2, Inr (AttemptErr modelAttempt)) \<Rightarrow>
                    (tr2, Inl (DownloadFailedAuto datasetAttempt modelAttempt)))))"

section \<open>Content Validator: decompression and validation\<close>

text \<open>
  \<open>maybeGunzip\<close>.  \<open>zlib.gunzipSync\<close> is a parameter: \<open>None\<close> where it throws.
\<close>

definition opt_string :: "string option \<Rightarrow> string" where
  "opt_string s = (case s of Some x \<Rightarrow> x | None \<Rightarrow> [])"

definition indicates_gzip :: "string option \<Rightarrow> string option \<Rightarrow> bool" where
  "indicates_gzip contentEncoding contentType =
     (let enc = toLowerCase (opt_string contentEncoding);
          ct = toLowerCase (opt_string contentType)
      in str_includes enc ''gzip'' \<or> str_includes ct ''gzip'' \<or>
         str_includes ct ''application/gzip'')"

definition maybeGunzip ::
  "(bytes \<Rightarrow> bytes option) \<Rightarrow> bytes \<Rightarrow> string option \<Rightarrow> string option \<Rightarrow> bytes" where
  "maybeGunzip gunzipSync buf contentEncoding contentType =
     (if indicates_gzip contentEncoding contentType then
        (case gunzipSync buf of Some d \<Rightarrow> d | None \<Rightarrow> buf)
      else buf)"

text \<open>\<open>downloadHFFileAsBuffer\<close> of the route, with \<open>opts?.expectParquet\<close> as a boolean.  The
  hints and the preview of the error message are not part of the model.\<close>

definition downloadHFFileAsBuffer ::
  "network \<Rightarrow> (bytes \<Rightarrow> bytes option) \<Rightarrow> string \<Rightarrow> trace \<Rightarrow> HFParquetRef \<Rightarrow> bool \<Rightarrow>
     trace \<times> (error + bytes)" where
  "downloadHFFileAsBuffer net gunzipSync rawToken tr0 r expectParquet =
     (case downloadHFFile net rawToken tr0 r of
        (tr, Inl e) \<Rightarrow> (tr, Inl e)
      | (tr, Inr out) \<Rightarrow>
          (let buf = maybeGunzip gunzipSync (ok_buf out) (ok_contentEncoding out) (ok_contentType out)
           in if expectParquet \<and> \<not> isParquetBuffer (Some buf)
              then (tr, Inl (InvalidParquet (ok_url out) (ok_finalUrl out) (ok_contentType out)))
              else (tr, Inr buf)))"

section \<open>File Writer\<close>

text \<open>\<^verbatim>\<open>fileName.replace(/[^a-zA-Z0-9._-]/g, '_')\<close>\<close>

definition safe_char :: "char \<Rightarrow> bool" where
  "safe_char c =
     (c \<in> set ''abcdefghijklmnopqrstuvwxyzABCDEFGHIJKLMNOPQRSTUVWXYZ0123456789._-'')"

definition sanitizeFileName :: "string \<Rightarrow> string" where
  "sanitizeFileName fileName = map (\<lambda>c. if safe_char c then c else CHR ''_'') fileName"

text \<open>The decimal digits of a number, as the template literal \<^verbatim>\<open>`${i}`\<close> prints it.\<close>

definition digit_char :: "nat \<Rightarrow> char" where
  "digit_char d = ''0123456789'' ! (d mod 10)"

function decimal :: "nat \<Rightarrow> string" where
  "decimal n = (if n < 10 then [digit_char n] else decimal (n div 10) @ [digit_char (n mod 10)])"
  by pat_completeness auto
termination
  by (relation "measure id") auto

declare decimal.simps [simp del]

text \<open>
  \<open>path.join\<close> of two arguments on a POSIX host, after Node's \<open>posix.normalize\<close>: empty and
  \<open>.\<close> segments go, \<open>..\<close> removes the segment before it (or stays, in a relative path
  that has none to remove), a trailing slash stays.
\<close>

fun normalizeString :: "bool \<Rightarrow> string list \<Rightarrow> string list \<Rightarrow> string list" where
  "normalizeString allowAboveRoot res [] = res"
| "normalizeString allowAboveRoot res (s # ss) =
     (if s = [] \<or> s = ''.'' then normalizeString allowAboveRoot res ss
      else if s = ''..'' then
        (if res \<noteq> [] \<and> last res \<noteq> ''..'' then normalizeString allowAboveRoot (butlast res) ss
         else if allowAboveRoot then normalizeString allowAboveRoot (res @ [''..'']) ss
         else normalizeString allowAboveRoot res ss)
      else normalizeString allowAboveRoot (res @ [s]) ss)"

definition normalize :: "string \<Rightarrow> string" where
  "normalize path =
     (if path = [] then ''.''
      else
        let isAbsolute = (hd path = CHR ''/'');
            trailingSeparator = (last path = CHR ''/'');
            p = join_with ''/'' (normalizeString (\<not> isAbsolute) [] (split_on CHR ''/'' path))
        in
          if p = [] then (if isAbsolute then ''/'' else if trailingSeparator then ''./'' else ''.'')
          else (if isAbsolute then ''/'' else []) @ p @ (if trailingSeparator then ''/'' else []))"

definition path_join :: "string \<Rightarrow> string \<Rightarrow> string" where
  "path_join a b =
     (let joined = (if a = [] then b else if b = [] then a else a @ ''/'' @ b)
      in if joined = [] then ''.'' else normalize joined)"

text \<open>The file system: what exists at a path.  \<open>fs.existsSync\<close> asks whether anything
  does; \<open>fs.writeFileSync\<close> throws on a directory and wherever the platform denies the write
  (the predicate \<open>denied\<close>), and otherwise creates or replaces the file.\<close>

datatype fs_entry = Directory | BinaryFile bytes | TextFile string

type_synonym filesystem = "string \<Rightarrow> fs_entry option"

definition existsSync :: "filesystem \<Rightarrow> string \<Rightarrow> bool" where
  "existsSync fs p = (fs p \<noteq> None)"

definition writeFileSync ::
  "(string \<Rightarrow> bool) \<Rightarrow> filesystem \<Rightarrow> string \<Rightarrow> fs_entry \<Rightarrow> error + filesystem" where
  "writeFileSync denied fs p d =
     (if denied p \<or> fs p = Some Directory then Inl (WriteFailed p) else Inr (fs(p \<mapsto> d)))"

text \<open>
  \<^verbatim>\<open>
  function uniquePath(dir, baseName, extensionWithDot) {
    const safeBase = sanitizeFileName(baseName);
    const safeExt = sanitizeFileName(
      extensionWithDot.startsWith('.') ? extensionWithDot : `.${extensionWithDot}`);
    let candidate = path.join(dir, `${safeBase}${safeExt}`);
    if (!fs.existsSync(candidate)) return candidate;
    for (let i = 1; i < 10_000; i++) {
      candidate = path.join(dir, `${safeBase}_${i}${safeExt}`);
      if (!fs.existsSync(candidate)) return candidate;
    }
    throw new Error('Unable to find a unique filename after many attempts');
  }\<close>
  The function is the same in the route and in the helper script.
\<close>

definition safeBase_of :: "string \<Rightarrow> string" where
  "safeBase_of baseName = sanitizeFileName baseName"

definition safeExt_of :: "string \<Rightarrow> string" where
  "safeExt_of extensionWithDot =
     sanitizeFileName (if startsWith extensionWithDot ''.'' then extensionWithDot
                       else ''.'' @ extensionWithDot)"

definition plain_candidate :: "string \<Rightarrow> string \<Rightarrow> string \<Rightarrow> string" where
  "plain_candidate dir safeBase safeExt = path_join dir (safeBase @ safeExt)"

definition suffixed_candidate :: "string \<Rightarrow> string \<Rightarrow> string \<Rightarrow> nat \<Rightarrow> string" where
  "suffixed_candidate dir safeBase safeExt i =
     path_join dir (safeBase @ ''_'' @ decimal i @ safeExt)"

function uniquePath_loop ::
  "filesystem \<Rightarrow> string \<Rightarrow> string \<Rightarrow> string \<Rightarrow> nat \<Rightarrow> error + string" where
  "uniquePath_loop fs dir safeBase safeExt i =
     (if i < 10000 then
        (if \<not> existsSync fs (suffixed_candidate dir safeBase safeExt i)
         then Inr (suffixed_candidate dir safeBase safeExt i)
         else uniquePath_loop fs dir safeBase safeExt (i + 1))
      else Inl NoUniqueName)"
  by pat_completeness auto
termination
  by (relation "measure (\<lambda>(fs, dir, safeBase, safeExt, i). 10000 - i)") auto

declare uniquePath_loop.simps [simp del]

definition uniquePath :: "filesystem \<Rightarrow> string \<Rightarrow> string \<Rightarrow> string \<Rightarrow> error + string" where
  "uniquePath fs dir baseName extensionWithDot =
     (let safeBase = safeBase_of baseName;
          safeExt = safeExt_of extensionWithDot
      in if \<not> existsSync fs (plain_candidate dir safeBase safeExt)
         then Inr (plain_candidate dir safeBase safeExt)
         else uniquePath_loop fs dir safeBase safeExt 1)"

text \<open>\<^verbatim>\<open>s.replace(/\.[^/.]+$/, '')\<close>: the part from the last dot on goes, when at least one
  character follows that dot and none of them is a slash.\<close>

definition strip_extension :: "string \<Rightarrow> string" where
  "strip_extension s =
     (let t = takeWhile (\<lambda>c. c \<noteq> CHR ''.'') (rev s) in
      if length t < length s \<and> t \<noteq> [] \<and> CHR ''/'' \<notin> set t
      then take (length s - length t - 1) s else s)"

definition getSidecarCaptionPath :: "string \<Rightarrow> string" where
  "getSidecarCaptionPath imageAbsPath = strip_extension imageAbsPath @ ''.txt''"

section \<open>Row Extractor and Import Aggregator (the helper script)\<close>

text \<open>
  The values a decoded cell can hold.  Numbers are integers here; a plain object and a
  \<open>Map\<close> are association lists from a key to a value.
\<close>

datatype jsval =
    JUndefined
  | JNull
  | JBool bool
  | JNum int
  | JStr string
  | JBuffer bytes
  | JUint8Array bytes
  | JArrayBuffer bytes
  | JObject "(string \<times> jsval) list"
  | JMap "(string \<times> jsval) list"

text \<open>\<open>!v\<close> is false exactly on the truthy values.\<close>

fun truthy :: "jsval \<Rightarrow> bool" where
  "truthy JUndefined = False"
| "truthy JNull = False"
| "truthy (JBool b) = b"
| "truthy (JNum n) = (n \<noteq> 0)"
| "truthy (JStr s) = (s \<noteq> [])"
| "truthy _ = True"

text \<open>\<open>v != null\<close>, and the test of \<open>??\<close>: neither \<open>null\<close> nor \<open>undefined\<close>.\<close>

fun not_nullish :: "jsval \<Rightarrow> bool" where
  "not_nullish JUndefined = False"
| "not_nullish JNull = False"
| "not_nullish _ = True"

definition nullish_or :: "jsval \<Rightarrow> jsval \<Rightarrow> jsval" where
  "nullish_or a b = (if not_nullish a then a else b)"

text \<open>\<open>v[key]\<close> and \<open>v.key\<close> for one of the keys \<open>bytes\<close>, \<open>data\<close>, \<open>path\<close>: a plain object
  gives its entry, every other value has no such property.\<close>

definition lookup_key :: "(string \<times> jsval) list \<Rightarrow> string \<Rightarrow> jsval" where
  "lookup_key m key = (case map_of m key of Some v \<Rightarrow> v | None \<Rightarrow> JUndefined)"

fun property :: "jsval \<Rightarrow> string \<Rightarrow> jsval" where
  "property (JObject m) key = lookup_key m key"
| "property _ key = JUndefined"

text \<open>
  \<^verbatim>\<open>
  function getStructField(val, key) {
    if (!val) return null;
    if (val instanceof Map) return val.get(key);
    if (typeof val === 'object') return val[key];
    return null;
  }\<close>
\<close>

fun getStructField :: "jsval \<Rightarrow> string \<Rightarrow> jsval" where
  "getStructField (JMap m) key = lookup_key m key"
| "getStructField (JObject m) key = lookup_key m key"
| "getStructField (JBuffer b) key = JUndefined"
| "getStructField (JUint8Array b) key = JUndefined"
| "getStructField (JArrayBuffer b) key = JUndefined"
| "getStructField _ key = JNull"

text \<open>\<open>Buffer.from(s, 'utf8')\<close> on code units below 256.\<close>

definition utf8_char :: "char \<Rightarrow> bytes" where
  "utf8_char c =
     (let n = (of_char c :: nat) in
      if n < 128 then [of_nat n] else [of_nat (192 + n div 64), of_nat (128 + n mod 64)])"

definition utf8_encode :: "string \<Rightarrow> bytes" where
  "utf8_encode s = concat (map utf8_char s)"

text \<open>
  \<^verbatim>\<open>
  function coerceToBuffer(value) {
    if (!value) return null;
    if (Buffer.isBuffer(value)) return value;
    if (value instanceof Uint8Array) return Buffer.from(value);
    if (value instanceof ArrayBuffer) return Buffer.from(new Uint8Array(value));
    if (typeof value === 'string') return Buffer.from(value, 'utf8');
    return null;
  }\<close>
\<close>

fun coerceToBuffer :: "jsval \<Rightarrow> bytes option" where
  "coerceToBuffer (JBuffer b) = Some b"
| "coerceToBuffer (JUint8Array b) = Some b"
| "coerceToBuffer (JArrayBuffer b) = Some b"
| "coerceToBuffer (JStr s) = (if s = [] then None else Some (utf8_encode s))"
| "coerceToBuffer _ = None"

text \<open>
  What the script takes from its platform: the MD5 digest in hexadecimal, the extension
  that \<open>file-type\<close> finds (\<open>None\<close> when it finds none or throws), \<open>String(v)\<close> for a
  value that is an object or a number of 22 digits or more, the paths at which a write is denied, the network, the
  environment variable \<open>HF_TOKEN\<close>, and the decoding of the parquet file at a path
  (\<open>None\<close> when reading or decoding it throws).
\<close>

record table =
  columnNames :: "string list"
  getChild :: "string \<Rightarrow> (nat \<Rightarrow> jsval) option"
  numRows :: nat

record platform =
  md5Hex :: "bytes \<Rightarrow> string"
  fileTypeExt :: "bytes \<Rightarrow> string option"
  String_of_object :: "jsval \<Rightarrow> string"
  write_denied :: "string \<Rightarrow> bool"
  net_of :: network
  env_HF_TOKEN :: "string option"
  readTable :: "string \<Rightarrow> table option"

text \<open>
  \<open>String(v)\<close>.  A whole number below \<open>10 ^ 21\<close> in absolute value is printed with all
  its decimal digits; from there on JavaScript prints the exponent notation (\<open>1e+21\<close>),
  which is left to the platform, as is the text of an object.
\<close>

definition js_String :: "platform \<Rightarrow> jsval \<Rightarrow> string" where
  "js_String pf v =
     (case v of
        JStr s \<Rightarrow> s
      | JNum n \<Rightarrow>
          (if 10 ^ 21 \<le> \<bar>n\<bar> then String_of_object pf v
           else if n < 0 then ''-'' @ decimal (nat (- n)) else decimal (nat n))
      | JBool b \<Rightarrow> (if b then ''true'' else ''false'')
      | JNull \<Rightarrow> ''null''
      | JUndefined \<Rightarrow> ''undefined''
      | _ \<Rightarrow> String_of_object pf v)"

text \<open>
  \<open>getRow\<close>: the object with one property per column name, a later column of the same
  name replacing an earlier one.
\<close>

type_synonym row = "string \<Rightarrow> jsval option"

definition getRow :: "table \<Rightarrow> nat \<Rightarrow> row" where
  "getRow tbl idx =
     foldl (\<lambda>row name.
              row(name \<mapsto> (case getChild tbl name of Some col \<Rightarrow> col idx | None \<Rightarrow> JNull)))
           Map.empty (columnNames tbl)"

definition row_property :: "row \<Rightarrow> string \<Rightarrow> jsval" where
  "row_property row key = (case row key of Some v \<Rightarrow> v | None \<Rightarrow> JUndefined)"

text \<open>
  \<^verbatim>\<open>
  function pickCaptionColumn(row) {
    if (row?.text != null) return String(row.text);
    if (row?.caption != null) return String(row.caption);
    return null;
  }\<close>
\<close>

definition pickCaptionColumn :: "platform \<Rightarrow> row \<Rightarrow> string option" where
  "pickCaptionColumn pf row =
     (if not_nullish (row_property row ''text'') then Some (js_String pf (row_property row ''text''))
      else if not_nullish (row_property row ''caption'')
      then Some (js_String pf (row_property row ''caption''))
      else None)"

definition pickImageColumn :: "row \<Rightarrow> jsval" where
  "pickImageColumn row = row_property row ''image''"

text \<open>\<open>path.posix.basename\<close> and \<open>path.posix.extname\<close>, after Node's implementation: the
  base name is the last segment, without trailing slashes; the extension runs from the
  last dot of the base name, unless that dot is its first character or the base name is
  \<open>..\<close>.\<close>

definition posix_basename :: "string \<Rightarrow> string" where
  "posix_basename p =
     rev (takeWhile (\<lambda>c. c \<noteq> CHR ''/'') (dropWhile (\<lambda>c. c = CHR ''/'') (rev p)))"

definition posix_extname :: "string \<Rightarrow> string" where
  "posix_extname p =
     (let b = posix_basename p;
          t = takeWhile (\<lambda>c. c \<noteq> CHR ''.'') (rev b)
      in if length t = length b \<or> length t + 1 = length b \<or> b = ''..'' then []
         else drop (length b - length t - 1) b)"

text \<open>The arguments of the script, by name (\<open>parseArgs\<close>).  \<open>args.k\<close> is truthy when it is
  there and not empty; \<open>args.k || d\<close> is \<open>d\<close> otherwise.\<close>

type_synonym args = "string \<Rightarrow> string option"

definition arg_truthy :: "args \<Rightarrow> string \<Rightarrow> bool" where
  "arg_truthy a k = (case a k of Some v \<Rightarrow> v \<noteq> [] | None \<Rightarrow> False)"

definition arg_or :: "args \<Rightarrow> string \<Rightarrow> string \<Rightarrow> string" where
  "arg_or a k d = (case a k of Some v \<Rightarrow> if v \<noteq> [] then v else d | None \<Rightarrow> d)"

text \<open>The fetcher of the script: one URL per repository type, and a response that is not
  \<open>ok\<close> is an exception.\<close>

definition buildUrl_mjs :: "string \<Rightarrow> string \<Rightarrow> string \<Rightarrow> string \<Rightarrow> string" where
  "buildUrl_mjs rId rv fp type =
     (if type = ''datasets''
      then ''https://huggingface.co/datasets/'' @ rId @ ''/resolve/'' @ rv @ ''/'' @ fp @ ''?download=true''
      else ''https://huggingface.co/'' @ rId @ ''/resolve/'' @ rv @ ''/'' @ fp @ ''?download=true'')"

definition tryFetch_mjs ::
  "network \<Rightarrow> trace \<Rightarrow> string \<Rightarrow> string option \<Rightarrow> trace \<times> (error + bytes)" where
  "tryFetch_mjs net tr url headers =
     (case fetch net tr url headers of
        (tr', Rejected) \<Rightarrow> (tr', Inl FetchRejected)
      | (tr', Responded res) \<Rightarrow>
          if \<not> res_ok res
          then (tr', Inl (HFDownloadFailed (res_status res) (res_statusText res)
                           (take 200 (res_text res))))
          else (tr', Inr (res_body res)))"

text \<open>
  \<^verbatim>\<open>
  const tryRepoType = async type => {
    const url = buildUrl(type);
    if (cleanToken) {
      try { return await tryFetch(url, headersWithAuth); }
      catch { return await tryFetch(url, baseHeaders); }   // retry without auth
    }
    return await tryFetch(url, baseHeaders);
  };\<close>
\<close>

definition tryRepoType ::
  "network \<Rightarrow> string \<Rightarrow> trace \<Rightarrow> string \<Rightarrow> trace \<times> (error + bytes)" where
  "tryRepoType net cleanToken tr url =
     (if cleanToken \<noteq> [] then
        (case tryFetch_mjs net tr url (Some (''Bearer '' @ cleanToken)) of
           (tr1, Inr buf) \<Rightarrow> (tr1, Inr buf)
         | (tr1, Inl _) \<Rightarrow> tryFetch_mjs net tr1 url None)
      else tryFetch_mjs net tr url None)"

definition downloadHFFileAsBuffer_mjs ::
  "network \<Rightarrow> trace \<Rightarrow> string \<Rightarrow> string \<Rightarrow> string \<Rightarrow> string \<Rightarrow> string \<Rightarrow>
     trace \<times> (error + bytes)" where
  "downloadHFFileAsBuffer_mjs net tr rId rvn fPath rType token =
     (let cleanToken = sanitizeToken token;
          rv = encodeURIComponent (if rvn \<noteq> [] then rvn else ''main'');
          fp = encodeHFPath fPath
      in
        if rType = ''datasets'' \<or> rType = ''models''
        then tryRepoType net cleanToken tr (buildUrl_mjs rId rv fp rType)
        else
          (case tryRepoType net cleanToken tr (buildUrl_mjs rId rv fp ''datasets'') of
             (tr1, Inr buf) \<Rightarrow> (tr1, Inr buf)
           | (tr1, Inl _) \<Rightarrow> tryRepoType net cleanToken tr1 (buildUrl_mjs rId rv fp ''models'')))"

text \<open>\<open>inferExtensionFromBytes\<close>: \<open>ft?.ext || null\<close>, and \<open>null\<close> when \<open>file-type\<close> throws.\<close>

definition inferExtensionFromBytes :: "platform \<Rightarrow> bytes \<Rightarrow> string option" where
  "inferExtensionFromBytes pf imageBytes =
     (case fileTypeExt pf imageBytes of
        Some e \<Rightarrow> if e \<noteq> [] then Some e else None
      | None \<Rightarrow> None)"

text \<open>The base name and the extension of a row's image: from the path hint
  \<open>imageValue?.path\<close> when it gives them, else from the digest and the sniffed type.\<close>

definition name_from_hint :: "string \<Rightarrow> string option \<times> string option" where
  "name_from_hint imagePathHint =
     (if imagePathHint \<noteq> [] then
        (let bn = posix_basename imagePathHint in
         if bn \<noteq> [] \<and> bn \<noteq> ''.'' \<and> bn \<noteq> ''/'' then
           (Some (strip_extension bn),
            (let ext = posix_extname bn in
             if ext \<noteq> [] then Some (strip_opt_prefix ''.'' ext) else None))
         else (None, None))
      else (None, None))"

definition image_name :: "platform \<Rightarrow> jsval \<Rightarrow> bytes \<Rightarrow> string \<times> string" where
  "image_name pf imageValue imageBytes =
     (let imagePathHint =
            (if truthy (property imageValue ''path'')
             then js_String pf (property imageValue ''path'') else []);
          (baseName0, extension0) = name_from_hint imagePathHint;
          baseName = (case baseName0 of Some b \<Rightarrow> if b \<noteq> [] then b else md5Hex pf imageBytes
                      | None \<Rightarrow> md5Hex pf imageBytes);
          inferred = (case inferExtensionFromBytes pf imageBytes of
                        Some e \<Rightarrow> if e \<noteq> [] then e else ''jpg''
                      | None \<Rightarrow> ''jpg'');
          extension = (case extension0 of Some e \<Rightarrow> if e \<noteq> [] then e else inferred
                       | None \<Rightarrow> inferred)
      in (baseName, extension))"

text \<open>The state of a run: the three parts of the summary, the file system and the
  requests made.\<close>

record run_state =
  imported :: nat
  skipped :: nat
  errors :: "(nat \<times> error) list"
  files :: filesystem
  requests :: trace

datatype row_outcome = Imported | Skipped

text \<open>The bytes of a row's image: embedded, or fetched when the row has only a path and
  the script was given a repository.\<close>

definition image_bytes ::
  "platform \<Rightarrow> args \<Rightarrow> jsval \<Rightarrow> trace \<Rightarrow> trace \<times> (error + bytes option)" where
  "image_bytes pf a imageValue tr =
     (let imageBytesValue =
            nullish_or (nullish_or (getStructField imageValue ''bytes'')
                                   (getStructField imageValue ''data'')) JNull;
          imageBytes = coerceToBuffer imageBytesValue;
          imagePathInRepo = getStructField imageValue ''path''
      in
        if imageBytes = None \<and> truthy imagePathInRepo \<and> arg_truthy a ''repoId'' then
          (case downloadHFFileAsBuffer_mjs (net_of pf) tr
                  (arg_or a ''repoId'' [])
                  (arg_or a ''revision'' ''main'')
                  (js_String pf imagePathInRepo)
                  (arg_or a ''repoType'' ''auto'')
                  (if arg_truthy a ''hfToken'' then arg_or a ''hfToken'' []
                   else opt_string (env_HF_TOKEN pf)) of
             (tr', Inl e) \<Rightarrow> (tr', Inl e)
           | (tr', Inr buf) \<Rightarrow> (tr', Inr (Some buf)))
        else (tr, Inr imageBytes))"

text \<open>The body of the \<open>try\<close> block of the row loop, for the row at \<open>rowIndex - 1\<close>: the file
  system and the requests after it, and what it did: it threw, it skipped the row
  (\<open>continue\<close>) or it imported it.\<close>

definition import_row ::
  "platform \<Rightarrow> args \<Rightarrow> table \<Rightarrow> nat \<Rightarrow> filesystem \<Rightarrow> trace \<Rightarrow>
     (filesystem \<times> trace) \<times> (error + row_outcome)" where
  "import_row pf a tbl rowIndex fs tr =
     (let row = getRow tbl (rowIndex - 1);
          caption = (case pickCaptionColumn pf row of Some c \<Rightarrow> c | None \<Rightarrow> []);
          imageValue = pickImageColumn row
      in
        if \<not> truthy imageValue then ((fs, tr), Inr Skipped)
        else
          (case image_bytes pf a imageValue tr of
             (tr', Inl e) \<Rightarrow> ((fs, tr'), Inl e)
           | (tr', Inr None) \<Rightarrow> ((fs, tr'), Inl CouldNotExtractImageBytes)
           | (tr', Inr (Some imageBytes)) \<Rightarrow>
               (let (baseName, extension) = image_name pf imageValue imageBytes in
                case uniquePath fs (opt_string (a ''datasetDir'')) baseName (''.'' @ extension) of
                  Inl e \<Rightarrow> ((fs, tr'), Inl e)
                | Inr absImagePath \<Rightarrow>
                    (case writeFileSync (write_denied pf) fs absImagePath (BinaryFile imageBytes) of
                       Inl e \<Rightarrow> ((fs, tr'), Inl e)
                     | Inr fs1 \<Rightarrow>
                         (case writeFileSync (write_denied pf) fs1
                                 (getSidecarCaptionPath absImagePath) (TextFile caption) of
                            Inl e \<Rightarrow> ((fs1, tr'), Inl e)
                          | Inr fs2 \<Rightarrow> ((fs2, tr'), Inr Imported))))))"

text \<open>One turn of the loop: the body in its \<open>try\<close>, and the \<open>catch\<close> that records the
  error at \<open>rowIndex\<close>.\<close>

definition main_step :: "platform \<Rightarrow> args \<Rightarrow> table \<Rightarrow> nat \<Rightarrow> run_state \<Rightarrow> run_state" where
  "main_step pf a tbl rowIndex st =
     (case import_row pf a tbl rowIndex (files st) (requests st) of
        ((fs, tr), Inr Skipped) \<Rightarrow> st\<lparr> skipped := skipped st + 1, files := fs, requests := tr \<rparr>
      | ((fs, tr), Inr Imported) \<Rightarrow> st\<lparr> imported := imported st + 1, files := fs, requests := tr \<rparr>
      | ((fs, tr), Inl e) \<Rightarrow>
          st\<lparr> errors := errors st @ [(rowIndex, e)], files := fs, requests := tr \<rparr>)"

text \<open>\<^verbatim>\<open>for (let rowIndex = 1; rowIndex <= table.numRows; rowIndex++) { try {...} catch {...} }\<close>\<close>

function main_loop :: "platform \<Rightarrow> args \<Rightarrow> table \<Rightarrow> nat \<Rightarrow> run_state \<Rightarrow> run_state" where
  "main_loop pf a tbl rowIndex st =
     (if rowIndex \<le> numRows tbl
      then main_loop pf a tbl (rowIndex + 1) (main_step pf a tbl rowIndex st)
      else st)"
  by pat_completeness auto
termination
  by (relation "measure (\<lambda>(pf, a, tbl, rowIndex, st). numRows tbl + 1 - rowIndex)") auto

declare main_loop.simps [simp del]

text \<open>\<open>main\<close>: the arguments are checked and the table is decoded before the loop; the
  summary \<open>{ imported, skipped, errors }\<close> is read off the final state.\<close>

definition initial_state :: "filesystem \<Rightarrow> run_state" where
  "initial_state fs = \<lparr> imported = 0, skipped = 0, errors = [], files = fs, requests = [] \<rparr>"

definition main :: "platform \<Rightarrow> args \<Rightarrow> filesystem \<Rightarrow> error + run_state" where
  "main pf a fs =
     (if \<not> arg_truthy a ''datasetDir'' \<or> \<not> arg_truthy a ''parquetFile'' then Inl MissingArgs
      else
        (case readTable pf (opt_string (a ''parquetFile'')) of
           None \<Rightarrow> Inl DecodeFailed
         | Some tbl \<Rightarrow> Inr (main_loop pf a tbl 1 (initial_state fs))))"

section \<open>Notions used in the statements\<close>

text \<open>A path segment of a reference: not empty, and without a slash.\<close>

definition seg_ok :: "string \<Rightarrow> bool" where
  "seg_ok s = (s \<noteq> [] \<and> CHR ''/'' \<notin> set s)"







text \<open>The number of rows a state accounts for.\<close>

definition tally :: "run_state \<Rightarrow> nat" where
  "tally st = imported st + skipped st + length (errors st)"

text \<open>
  A run on which the statements are evaluated: a table of three rows (an image with
  embedded bytes, an image struct whose \<open>bytes\<close> and \<open>path\<close> are both \<open>null\<close>, no image),
  a platform that denies no write and has no network, and the arguments the route passes
  to the script.  A second table has the struct without bytes as its only row.
\<close>

definition example_table :: table where
  "example_table =
     \<lparr> columnNames = [''image'', ''text''],
       getChild = (\<lambda>name.
         if name = ''image''
         then Some (\<lambda>i. [JObject [(''bytes'', JUint8Array [1, 2, 3])],
                           JObject [(''bytes'', JNull), (''path'', JNull)],
                           JNull] ! i)
         else if name = ''text'' then Some (\<lambda>i. JStr ''a cat'')
         else None),
       numRows = 3 \<rparr>"

definition example_platform :: platform where
  "example_platform =
     \<lparr> md5Hex = (\<lambda>b. ''5289df73''), fileTypeExt = (\<lambda>b. None),
       String_of_object = (\<lambda>v. ''[object Object]''), write_denied = (\<lambda>p. False),
       net_of = (\<lambda>n u h. Rejected), env_HF_TOKEN = None,
       readTable = (\<lambda>p. if p = ''/tmp/input.parquet'' then Some example_table else None) \<rparr>"

definition example_args :: args where
  "example_args = [''datasetDir'' \<mapsto> ''/data/cats'', ''parquetFile'' \<mapsto> ''/tmp/input.parquet'']"

definition no_bytes_table :: table where
  "no_bytes_table =
     \<lparr> columnNames = [''image'', ''text''],
       getChild = (\<lambda>name.
         if name = ''image'' then Some (\<lambda>i. JObject [(''bytes'', JNull), (''path'', JNull)])
         else if name = ''text'' then Some (\<lambda>i. JStr ''a cat'')
         else None),
       numRows = 1 \<rparr>"

text \<open>Reading a trace: the requests made, in order; whether an answer was a response
  with a status outside 200-299, or one inside.\<close>

definition requests_of :: "trace \<Rightarrow> (string \<times> string option) list" where
  "requests_of tr = map (\<lambda>(u, h, r). (u, h)) tr"

definition failed :: "fetch_result \<Rightarrow> bool" where
  "failed r = (case r of Responded res \<Rightarrow> \<not> res_ok res | Rejected \<Rightarrow> False)"

definition succeeded :: "fetch_result \<Rightarrow> bool" where
  "succeeded r = (case r of Responded res \<Rightarrow> res_ok res | Rejected \<Rightarrow> False)"

text \<open>\<open>new\<close> continues the trace \<open>tr\<close> by the requests of \<open>plan\<close>, in its order and as far as
  \<open>new\<close> goes, each answered by the network, and each but the last answered with a
  status outside 200-299.\<close>

definition in_order ::
  "network \<Rightarrow> trace \<Rightarrow> (string \<times> string option) list \<Rightarrow> trace \<Rightarrow> bool" where
  "in_order net tr plan new \<longleftrightarrow>
     length new \<le> length plan \<and>
     requests_of new = take (length new) plan \<and>
     (\<forall>k < length new. snd (snd (new ! k)) = net (length tr + k) (fst (new ! k)) (fst (snd (new ! k)))) \<and>
     list_all (\<lambda>x. failed (snd (snd x))) (butlast new)"

text \<open>The order of requests for one URL and a token: the URL and the URL with the download
  query, each with the \<open>Authorization\<close> header and then without it, and the URL with the
  download query once more with the header.\<close>

definition auth_plan :: "string \<Rightarrow> string \<Rightarrow> (string \<times> string option) list" where
  "auth_plan token url =
     [(url, Some (''Bearer '' @ token)), (url, None),
      (withDownloadQuery url, Some (''Bearer '' @ token)), (withDownloadQuery url, None),
      (withDownloadQuery url, Some (''Bearer '' @ token))]"

text \<open>The order of requests without a token.\<close>

definition noauth_plan :: "string \<Rightarrow> (string \<times> string option) list" where
  "noauth_plan url = [(url, None), (withDownloadQuery url, None), (withDownloadQuery url, None)]"

text \<open>What a download error carries of an attempt: the URL and the status, and the
  diagnostic texts (the \<open>x-error-message\<close> header, the start of the body).\<close>

fun reported_attempts :: "error \<Rightarrow> (string \<times> nat) list" where
  "reported_attempts (DownloadFailed st stt u d) = [(u, st)]"
| "reported_attempts (DownloadFailedAuto d m) =
     [(err_url d, err_status d), (err_url m, err_status m)]"
| "reported_attempts _ = []"

fun reported_texts :: "error \<Rightarrow> string list" where
  "reported_texts (DownloadFailed st stt u d) = [d]"
| "reported_texts (DownloadFailedAuto d m) =
     [err_hfErrorMessage d, err_bodyPreview d, err_hfErrorMessage m, err_bodyPreview m]"
| "reported_texts _ = []"

text \<open>The attempts of a trace that got a response: URL and status; and the diagnostic
  headers of those responses.\<close>

definition attempted :: "trace \<Rightarrow> (string \<times> nat) list" where
  "attempted tr =
     concat (map (\<lambda>(u, h, r). case r of Responded res \<Rightarrow> [(u, res_status res)] | Rejected \<Rightarrow> []) tr)"

definition diagnostic_headers :: "trace \<Rightarrow> string list" where
  "diagnostic_headers tr =
     concat (map (\<lambda>(u, h, r). case r of
        Responded res \<Rightarrow> (case res_xErrorMessage res of Some m \<Rightarrow> [m] | None \<Rightarrow> [])
      | Rejected \<Rightarrow> []) tr)"

text \<open>What \<open>tryFetch\<close> makes of an answer, in the route and in the script.\<close>

definition attempt_of :: "string \<Rightarrow> fetch_result \<Rightarrow> error + HFDownloadAttempt" where
  "attempt_of u r =
     (case r of
        Rejected \<Rightarrow> Inl FetchRejected
      | Responded res \<Rightarrow>
          if res_ok res then Inr (AttemptOk (ok_attempt u res))
          else Inr (AttemptErr (err_attempt u res)))"

definition body_of :: "fetch_result \<Rightarrow> error + bytes" where
  "body_of r =
     (case r of
        Rejected \<Rightarrow> Inl FetchRejected
      | Responded res \<Rightarrow>
          if \<not> res_ok res
          then Inl (HFDownloadFailed (res_status res) (res_statusText res) (take 200 (res_text res)))
          else Inr (res_body res))"

text \<open>The requests of \<open>tryWithFallbackAuth\<close> for a cleaned token, and the URL that
  \<open>downloadHFFile\<close> builds for a reference and a repository type.\<close>

definition plan_for :: "string \<Rightarrow> string \<Rightarrow> (string \<times> string option) list" where
  "plan_for token url = (if token \<noteq> [] then auth_plan token url else noauth_plan url)"

definition resolve_url :: "HFParquetRef \<Rightarrow> HFRepoType \<Rightarrow> string" where
  "resolve_url r t =
     buildUrl (repoId r) (encodeURIComponent (if revision r \<noteq> [] then revision r else ''main''))
       (encodeHFPath (filePath r)) t"

text \<open>
  Networks on which the statements are evaluated: one that answers 401 to a request with
  a token and 404 to one without; one that serves a public file and refuses every token;
  one that serves a body under \<open>content-encoding: GZIP\<close> (a compressed one to the first
  request, a parquet file afterwards), with a decompression that knows that one body.
\<close>

definition denying_network :: network where
  "denying_network n u h =
     Responded \<lparr> res_status = (if h = None then 404 else 401),
       res_statusText = (if h = None then ''Not Found'' else ''Unauthorized''),
       res_url = u, res_contentType = Some ''text/plain'', res_contentEncoding = None,
       res_xErrorMessage =
         (if h = None then Some ''Repository not found'' else Some ''Invalid credentials''),
       res_body = [], res_text = [] \<rparr>"

definition example_ref :: HFParquetRef where
  "example_ref = \<lparr> repoId = ''acme/cats'', revision = ''main'',
     filePath = ''data/train.parquet'', repoType = Datasets \<rparr>"

definition public_network :: network where
  "public_network n u h =
     (if h = None
      then Responded \<lparr> res_status = 200, res_statusText = ''OK'', res_url = u,
             res_contentType = Some ''application/octet-stream'', res_contentEncoding = None,
             res_xErrorMessage = None, res_body = [0x50, 0x41, 0x52, 0x31, 0x50, 0x41, 0x52, 0x31],
             res_text = ''PAR1PAR1'' \<rparr>
      else Responded \<lparr> res_status = 401, res_statusText = ''Unauthorized'', res_url = u,
             res_contentType = Some ''text/plain'', res_contentEncoding = None,
             res_xErrorMessage = Some ''Invalid credentials'', res_body = [], res_text = [] \<rparr>)"

definition gzip_network :: network where
  "gzip_network n u h =
     Responded \<lparr> res_status = 200, res_statusText = ''OK'', res_url = u,
       res_contentType = Some ''application/octet-stream'', res_contentEncoding = Some ''GZIP'',
       res_xErrorMessage = None,
       res_body = (if n = 0 then [0x1F, 0x8B, 0x08, 0x00] else [0x50, 0x41, 0x52, 0x31, 0x50, 0x41, 0x52, 0x31]),
       res_text = [] \<rparr>"

definition example_gunzip :: "bytes \<Rightarrow> bytes option" where
  "example_gunzip b =
     (if b = [0x1F, 0x8B, 0x08, 0x00] then Some [0x50, 0x41, 0x52, 0x31, 0x50, 0x41, 0x52, 0x31]
      else None)"

section \<open>Properties of the magic check\<close>

lemma isParquetBuffer_short:
  "length buf < 8 \<Longrightarrow> \<not> isParquetBuffer (Some buf)"
  by (simp add: isParquetBuffer_def)

lemma isParquetBuffer_iff:
  "isParquetBuffer (Some buf) \<longleftrightarrow>
     8 \<le> length buf \<and> map (\<lambda>b. b AND 0x7F) (take 4 buf) = PAR1 \<and>
     map (\<lambda>b. b AND 0x7F) (drop (length buf - 4) buf) = PAR1"
  by (auto simp: isParquetBuffer_def toString_ascii_def)

lemma isParquet_eq_isParquetBuffer: "isParquet b = isParquetBuffer b"
  by (simp add: isParquet_def isParquetBuffer_def)

text \<open>
  Claim C10.  The magic check is false on every buffer shorter than 8 bytes
  (\<open>isParquetBuffer_short\<close>), but it is not true exactly on the buffers that begin and end
  with the bytes of \<open>PAR1\<close>: the \<open>'ascii'\<close> decoding drops the highest bit of every byte, so
  the 8-byte buffer \<open>D0 C1 D2 B1 D0 C1 D2 B1\<close>, none of whose bytes is a byte of the marker,
  passes the check of both \<open>isParquetBuffer\<close> and \<open>isParquet\<close>.
\<close>

theorem isParquetBuffer_accepts_high_bit_marker:
  "isParquetBuffer (Some [0xD0, 0xC1, 0xD2, 0xB1, 0xD0, 0xC1, 0xD2, 0xB1]) \<and>
   isParquet (Some [0xD0, 0xC1, 0xD2, 0xB1, 0xD0, 0xC1, 0xD2, 0xB1]) \<and>
   take 4 [0xD0, 0xC1, 0xD2, 0xB1, 0xD0, 0xC1, 0xD2, 0xB1 :: byte] \<noteq> PAR1 \<and>
   \<not> isParquetBuffer (Some PAR1)"
  by (simp add: isParquetBuffer_def isParquet_def toString_ascii_def PAR1_def)

lemma endsWith_iff: "endsWith s p \<longleftrightarrow> (\<exists>z. s = z @ p)"
  unfolding endsWith_def
  by (metis append_eq_conv_conj append_take_drop_id diff_add_inverse2 length_append le_add2 length_drop)

lemma endsWith_append_sep:
  assumes "c \<notin> set p"
  shows "endsWith (a @ c # b) p = endsWith b p"
proof
  assume "endsWith (a @ c # b) p"
  then obtain z where z: "a @ c # b = z @ p" by (auto simp: endsWith_iff)
  then obtain us where "(a = z @ us \<and> us @ c # b = p) \<or> (a @ us = z \<and> c # b = us @ p)"
    by (auto simp: append_eq_append_conv2)
  then show "endsWith b p"
  proof
    assume "a = z @ us \<and> us @ c # b = p"
    then have "c \<in> set p" by auto
    with assms show ?thesis by simp
  next
    assume h: "a @ us = z \<and> c # b = us @ p"
    show ?thesis
    proof (cases us)
      case Nil
      with h have "c \<in> set p" by (metis append_Nil list.set_intros(1))
      with assms show ?thesis by simp
    next
      case (Cons u us')
      with h have "b = us' @ p" by simp
      then show ?thesis by (auto simp: endsWith_iff)
    qed
  qed
next
  assume "endsWith b p"
  then obtain z where "b = z @ p" by (auto simp: endsWith_iff)
  then have "a @ c # b = (a @ c # z) @ p" by simp
  then show "endsWith (a @ c # b) p" unfolding endsWith_iff by blast
qed

lemma char_of_nat_eq_iff:
  fixes m :: nat
  assumes "m < 256"
  shows "(char_of m = d) = ((of_char d :: nat) = m)"
proof
  assume "char_of m = d"
  then have "(of_char d :: nat) = of_char (char_of m)" by simp
  also have "\<dots> = m mod 256" by (simp only: of_char_of)
  finally show "(of_char d :: nat) = m" using assms by simp
next
  assume "(of_char d :: nat) = m"
  then have "char_of m = char_of (of_char d :: nat)" by simp
  then show "char_of m = d" by (simp only: char_of_char)
qed

lemma lower_char_eq:
  "lower_char c = d \<longleftrightarrow>
     (if (0x41 \<le> (of_char c :: nat) \<and> (of_char c :: nat) \<le> 0x5A) \<or>
         (0xC0 \<le> (of_char c :: nat) \<and> (of_char c :: nat) \<le> 0xDE \<and> (of_char c :: nat) \<noteq> 0xD7)
      then (of_char d :: nat) = of_char c + 0x20 else d = c)"
proof (cases "(0x41 \<le> (of_char c :: nat) \<and> (of_char c :: nat) \<le> 0x5A) \<or>
         (0xC0 \<le> (of_char c :: nat) \<and> (of_char c :: nat) \<le> 0xDE \<and> (of_char c :: nat) \<noteq> 0xD7)")
  case True
  then have "(of_char c :: nat) + 0x20 < 256" by linarith
  from char_of_nat_eq_iff [OF this] True show ?thesis
    unfolding lower_char_def Let_def by (simp only: if_True)
next
  case False
  then show ?thesis unfolding lower_char_def Let_def by (simp only: if_False) blast
qed

lemma lower_char_slash: "lower_char CHR ''/'' = CHR ''/''"
  by (simp add: lower_char_eq)

lemma is_space_lower: "is_space c \<Longrightarrow> lower_char c = c"
  by (auto simp: is_space_def lower_char_eq)

lemma endsWith_lower_join:
  assumes "CHR ''/'' \<notin> set suf"
  shows "ps \<noteq> [] \<Longrightarrow>
    endsWith (toLowerCase (join_with ''/'' ps)) suf = endsWith (toLowerCase (last ps)) suf"
proof (induction "''/''" ps rule: join_with.induct)
  case 1
  then show ?case by simp
next
  case (2 s)
  then show ?case by simp
next
  case (3 s t ss)
  have "toLowerCase (join_with ''/'' (s # t # ss)) =
        toLowerCase s @ CHR ''/'' # toLowerCase (join_with ''/'' (t # ss))"
    by (simp add: toLowerCase_def lower_char_slash)
  then show ?case using 3 assms by (simp add: endsWith_append_sep)
qed

lemma parse_parts_fails_iff:
  "isl (parse_parts parts) \<longleftrightarrow>
     (length parts < 3 \<or>
      length parts < repo_index parts + (if isResolveOrBlob parts (repo_index parts) then 5 else 3) \<or>
      \<not> endsWith (toLowerCase (last parts)) ''.parquet'')"
proof (cases "length parts < 3")
  case True
  then show ?thesis by (simp add: parse_parts_def)
next
  case False
  have suf: "CHR ''/'' \<notin> set ''.parquet''" by simp
  show ?thesis
  proof (cases "isResolveOrBlob parts (repo_index parts)")
    case rb: True
    show ?thesis
    proof (cases "length parts < repo_index parts + 5")
      case True
      then show ?thesis using False rb by (simp add: parse_parts_def Let_def)
    next
      case ge: False
      then have "drop (repo_index parts + 4) parts \<noteq> []" by simp
      from endsWith_lower_join [OF suf this] ge
      have "endsWith (toLowerCase (join_with ''/'' (drop (repo_index parts + 4) parts))) ''.parquet''
            = endsWith (toLowerCase (last parts)) ''.parquet''" by simp
      then show ?thesis using False rb ge by (simp add: parse_parts_def Let_def)
    qed
  next
    case nrb: False
    show ?thesis
    proof (cases "length parts < repo_index parts + 3")
      case True
      then show ?thesis using False nrb by (simp add: parse_parts_def Let_def)
    next
      case ge: False
      then have "drop (repo_index parts + 2) parts \<noteq> []" by simp
      from endsWith_lower_join [OF suf this] ge
      have "endsWith (toLowerCase (join_with ''/'' (drop (repo_index parts + 2) parts))) ''.parquet''
            = endsWith (toLowerCase (last parts)) ''.parquet''" by simp
      then show ?thesis using False nrb ge
        by (simp add: parse_parts_def Let_def split: prod.splits)
    qed
  qed
qed

lemma split_on_no_sep_id: "c \<notin> set s \<Longrightarrow> split_on c s = [s]"
  by (induction s) auto

lemma split_on_append_sep:
  "c \<notin> set s \<Longrightarrow> split_on c (s @ c # r) = s # split_on c r"
  by (induction s) auto

lemma split_join_segments:
  "list_all seg_ok segs \<Longrightarrow>
     filter_Boolean (split_on CHR ''/'' (join_with ''/'' segs)) = segs"
proof (induction "''/''" segs rule: join_with.induct)
  case 1
  then show ?case by (simp add: filter_Boolean_def)
next
  case (2 s)
  then show ?case by (simp add: filter_Boolean_def seg_ok_def split_on_no_sep_id)
next
  case (3 s t ss)
  then have "split_on CHR ''/'' (join_with ''/'' (s # t # ss)) =
             s # split_on CHR ''/'' (join_with ''/'' (t # ss))"
    by (simp add: seg_ok_def split_on_append_sep)
  with 3 show ?case by (simp add: filter_Boolean_def seg_ok_def)
qed

lemma trim_id:
  "s \<noteq> [] \<Longrightarrow> \<not> is_space (hd s) \<Longrightarrow> \<not> is_space (last s) \<Longrightarrow> trim s = s"
proof -
  assume a: "s \<noteq> []" "\<not> is_space (hd s)" "\<not> is_space (last s)"
  then have 1: "dropWhile is_space s = s" by (cases s) auto
  from a have "rev s \<noteq> []" "\<not> is_space (hd (rev s))" by (auto simp: hd_rev)
  then have 2: "dropWhile is_space (rev s) = rev s" by (cases "rev s") auto
  show ?thesis by (simp add: trim_def 1 2)
qed

lemma join_nonempty_hd:
  "seg_ok t \<Longrightarrow> join_with ''/'' (t # ss) \<noteq> [] \<and> hd (join_with ''/'' (t # ss)) \<noteq> CHR ''/''"
  by (cases t; cases ss) (auto simp: seg_ok_def)

lemma strip_prefix_Some: "strip_prefix p s = Some r \<longleftrightarrow> s = p @ r"
  unfolding strip_prefix_def startsWith_def
  by (metis append_eq_conv_conj append_take_drop_id option.distinct(1) option.inject)

lemma strip_opt_prefix_cases: "strip_opt_prefix p s = s \<or> s = p @ strip_opt_prefix p s"
  unfolding strip_opt_prefix_def by (auto simp: strip_prefix_Some split: option.splits)

lemma match_hf_host_prefix:
  "match_hf_host x = Some r \<Longrightarrow> (\<exists>y. x = ''http://'' @ y) \<or> (\<exists>y. x = ''https://'' @ y)"
proof -
  assume "match_hf_host x = Some r"
  then obtain r1 r2 where 1: "x = ''http'' @ r1"
    and 2: "strip_opt_prefix ''s'' r1 = ''://'' @ r2"
    unfolding match_hf_host_def by (auto simp: strip_prefix_Some split: option.splits)
  from strip_opt_prefix_cases [of "''s''" r1] 2
  have "r1 = ''://'' @ r2 \<or> r1 = ''s'' @ ''://'' @ r2" by auto
  with 1 show ?thesis by auto
qed

lemma takeWhile_upto_sep: "c \<notin> set a \<Longrightarrow> takeWhile (\<lambda>x. x \<noteq> c) (a @ c # b) = a"
  by (induction a) auto

lemma no_host_in_segments:
  assumes "seg_ok org" "seg_ok repo"
  shows "match_hf_host (join_with ''/'' (org # repo # ps)) = None"
proof (rule ccontr)
  assume "match_hf_host (join_with ''/'' (org # repo # ps)) \<noteq> None"
  then obtain r where "match_hf_host (join_with ''/'' (org # repo # ps)) = Some r" by auto
  from match_hf_host_prefix [OF this]
  have "\<exists>p y. (p = ''http:'' \<or> p = ''https:'') \<and>
          join_with ''/'' (org # repo # ps) = p @ ''//'' @ y"
    by (elim disjE exE) (rule exI [of _ "''http:''"], simp, rule exI [of _ "''https:''"], simp)
  then obtain y p where p: "p = ''http:'' \<or> p = ''https:''"
    and eq: "join_with ''/'' (org # repo # ps) = p @ ''//'' @ y" by blast
  let ?rest = "join_with ''/'' (repo # ps)"
  have j: "join_with ''/'' (org # repo # ps) = org @ CHR ''/'' # ?rest" by simp
  from assms have norg: "CHR ''/'' \<notin> set org" by (simp add: seg_ok_def)
  from p have np: "CHR ''/'' \<notin> set p" by auto
  have "takeWhile (\<lambda>c. c \<noteq> CHR ''/'') (org @ CHR ''/'' # ?rest) = org"
    using norg by (rule takeWhile_upto_sep)
  moreover have "takeWhile (\<lambda>c. c \<noteq> CHR ''/'') (p @ ''//'' @ y) = p"
    using takeWhile_upto_sep [OF np, of "CHR ''/'' # y"] by simp
  ultimately have "org = p" using eq j by metis
  with eq j have "?rest = CHR ''/'' # y" by simp
  with join_nonempty_hd [OF assms(2), of ps] show False by simp
qed

lemma strip_hf_host_https: "strip_hf_host (''https://huggingface.co/'' @ r) = r"
  by (simp add: strip_hf_host_def match_hf_host_def strip_prefix_def strip_opt_prefix_def startsWith_def)

lemma strip_hf_host_segments:
  "seg_ok org \<Longrightarrow> seg_ok repo \<Longrightarrow>
     strip_hf_host (join_with ''/'' (org # repo # ps)) = join_with ''/'' (org # repo # ps)"
  by (simp only: strip_hf_host_def no_host_in_segments option.case)

lemma join_eq_Nil: "xs \<noteq> [] \<Longrightarrow> last xs \<noteq> [] \<Longrightarrow> join_with ''/'' xs \<noteq> []"
  by (induction "''/''" xs rule: join_with.induct) auto

lemma last_join: "xs \<noteq> [] \<Longrightarrow> last xs \<noteq> [] \<Longrightarrow> last (join_with ''/'' xs) = last (last xs)"
proof (induction "''/''" xs rule: join_with.induct)
  case (3 s t ss)
  then have "join_with ''/'' (t # ss) \<noteq> []" using join_eq_Nil [of "t # ss"] by simp
  with 3 show ?case by simp
qed simp_all

lemma parquet_suffix_last:
  assumes "endsWith (toLowerCase s) ''.parquet''"
  shows "s \<noteq> [] \<and> \<not> is_space (last s)"
proof -
  from assms obtain z where z: "toLowerCase s = z @ ''.parquet''" by (auto simp: endsWith_iff)
  then have ne: "s \<noteq> []" by (auto simp: toLowerCase_def)
  then have "last (toLowerCase s) = lower_char (last s)" by (simp add: toLowerCase_def last_map)
  with z have t: "lower_char (last s) = CHR ''t''" by simp
  have "\<not> is_space (last s)"
  proof
    assume sp: "is_space (last s)"
    with is_space_lower t have "last s = CHR ''t''" by simp
    with sp show False by (simp add: is_space_def)
  qed
  with ne show ?thesis by simp
qed

lemma hf_parts_segments:
  assumes "seg_ok org" "seg_ok repo" "list_all seg_ok ps" "\<not> is_space (hd org)"
    and "\<not> is_space (last (last (org # repo # ps)))"
  shows "hf_parts (join_with ''/'' (org # repo # ps)) = org # repo # ps"
proof -
  let ?x = "join_with ''/'' (org # repo # ps)"
  have all: "list_all seg_ok (org # repo # ps)" using assms by simp
  then have lne: "last (org # repo # ps) \<noteq> []"
    by (metis last_in_set list.distinct(1) list_all_iff seg_ok_def)
  have ne: "?x \<noteq> []" using join_eq_Nil [of "org # repo # ps"] lne by simp
  have hd: "hd ?x = hd org" using assms(1) by (cases org) (auto simp: seg_ok_def)
  have "last ?x = last (last (org # repo # ps))" using last_join [of "org # repo # ps"] lne by simp
  with assms hd ne have "trim ?x = ?x" by (simp add: trim_id)
  then show ?thesis
    unfolding hf_parts_def
    using strip_hf_host_segments [OF assms(1,2), of ps] split_join_segments [OF all] by simp
qed

lemma hf_parts_url:
  assumes "list_all seg_ok segs" "segs \<noteq> []" "\<not> is_space (last (last segs))"
  shows "hf_parts (''https://huggingface.co/'' @ join_with ''/'' segs) = segs"
proof -
  let ?x = "''https://huggingface.co/'' @ join_with ''/'' segs"
  have lne: "last segs \<noteq> []" using assms
    by (metis last_in_set list_all_iff seg_ok_def)
  have ne: "join_with ''/'' segs \<noteq> []" using join_eq_Nil assms lne by simp
  then have "last ?x = last (last segs)" using last_join [of segs] assms lne by simp
  then have "trim ?x = ?x" using assms by (intro trim_id) (simp_all add: is_space_def)
  then show ?thesis
    unfolding hf_parts_def
    using split_join_segments [OF assms(1)] by (simp only: strip_hf_host_https)
qed

lemma split_revision_at:
  assumes "repo \<noteq> []" "rv \<noteq> []" "CHR ''@'' \<notin> set repo" "CHR ''@'' \<notin> set rv"
  shows "split_revision (repo @ ''@'' @ rv) = (repo, rv)"
proof -
  have "split_on CHR ''@'' (repo @ CHR ''@'' # rv) = [repo, rv]"
    using assms by (simp add: split_on_append_sep split_on_no_sep_id)
  then show ?thesis using assms by (simp add: split_revision_def nth_opt_def Let_def)
qed

lemma split_revision_plain: "CHR ''@'' \<notin> set repo \<Longrightarrow> split_revision repo = (repo, ''main'')"
  by (simp add: split_revision_def)

lemma parquet_join:
  "ps \<noteq> [] \<Longrightarrow> endsWith (toLowerCase (last ps)) ''.parquet'' \<Longrightarrow>
     endsWith (toLowerCase (join_with ''/'' ps)) ''.parquet''"
  using endsWith_lower_join [of "''.parquet''" ps] by simp

text \<open>
  Claim C8, as the code has it.  \<open>parseHFParquetPath\<close> throws exactly when, with \<open>parts\<close>
  the non-empty segments left after trimming and removing the host prefix, and \<open>i\<close> the
  number of leading \<open>datasets\<close> keywords (0 or 1): fewer than 3 segments remain; or fewer
  than \<open>i + 3\<close> remain; or \<open>resolve\<close> or \<open>blob\<close> stands at position \<open>i + 2\<close> and fewer than
  \<open>i + 5\<close> remain; or the last segment does not end with \<open>.parquet\<close>, whatever the case of
  its letters.  On every other input it returns a reference.
\<close>

theorem parse_fails_iff:
  "isl (parseHFParquetPath inputRaw) \<longleftrightarrow>
     (length (hf_parts inputRaw) < 3 \<or>
      length (hf_parts inputRaw) <
        repo_index (hf_parts inputRaw) +
        (if isResolveOrBlob (hf_parts inputRaw) (repo_index (hf_parts inputRaw)) then 5 else 3) \<or>
      \<not> endsWith (toLowerCase (last (hf_parts inputRaw))) ''.parquet'')"
  unfolding parseHFParquetPath_def by (rule parse_parts_fails_iff)

theorem parse_fails_iff_witness:
  "isl (parseHFParquetPath ''org/repo/data/train.txt'') \<and>
   isl (parseHFParquetPath ''org/train.parquet'') \<and>
   isl (parseHFParquetPath ''https://huggingface.co/org/repo/blob/train.parquet'') \<and>
   \<not> isl (parseHFParquetPath ''org/repo/data/train.PARQUET'')"
  using parse_fails_iff [of "''org/repo/data/train.txt''"]
    parse_fails_iff [of "''org/train.parquet''"]
    parse_fails_iff [of "''https://huggingface.co/org/repo/blob/train.parquet''"]
    parse_fails_iff [of "''org/repo/data/train.PARQUET''"]
  by code_simp

text \<open>
  Claim C8 as stated fails: the file \<open>resolve/f.parquet\<close> of the repository \<open>org/repo\<close>,
  written in the bare shape, has four segments and the suffix, and the parser rejects it
  (\<open>InvalidUrl\<close>); so it does \<open>datasets/org/f.parquet\<close>, which has three (\<open>InvalidPath\<close>).
\<close>

theorem parse_fails_with_segments_and_suffix:
  "parseHFParquetPath ''org/repo/resolve/f.parquet'' = Inl InvalidUrl \<and>
   \<not> length (hf_parts ''org/repo/resolve/f.parquet'') < 3 \<and>
   endsWith (toLowerCase (last (hf_parts ''org/repo/resolve/f.parquet''))) ''.parquet'' \<and>
   parseHFParquetPath ''datasets/org/f.parquet'' = Inl InvalidPath \<and>
   \<not> length (hf_parts ''datasets/org/f.parquet'') < 3 \<and>
   endsWith (toLowerCase (last (hf_parts ''datasets/org/f.parquet''))) ''.parquet''"
  by code_simp

text \<open>
  Claim C3, as the code has it.  Take an organisation \<open>org\<close>, a repository \<open>repo\<close>, a
  revision \<open>rv\<close> and the segments \<open>p # ps\<close> of a file path, under these conditions: each of
  them is a non-empty string without a slash; \<open>org\<close> is not \<open>datasets\<close> and does not start
  with white space; \<open>repo\<close> and \<open>rv\<close> contain no \<open>@\<close>; the first path segment \<open>p\<close> is neither
  \<open>resolve\<close> nor \<open>blob\<close>; the last path segment ends with \<open>.parquet\<close>, in any case of the
  letters.  Then each of the five shapes parses, to the same \<open>repoId\<close> (\<open>org/repo\<close>) and
  the same \<open>filePath\<close>, and to the revision that the shape names (\<open>main\<close> for
  \<open>org/repo/path\<close> and \<open>datasets/org/repo/path\<close>, which name none); the \<open>repoType\<close> follows
  the shape: \<open>Auto\<close> for \<open>org/repo/path\<close> and \<open>org/repo@rv/path\<close>, \<open>Datasets\<close> for
  \<open>datasets/org/repo/path\<close> and for
  \<open>https://huggingface.co/datasets/org/repo/(resolve|blob)/rv/path\<close>, \<open>Models\<close> for
  \<open>https://huggingface.co/org/repo/(resolve|blob)/rv/path\<close>.
\<close>

theorem parse_shapes:
  assumes segs: "seg_ok org" "seg_ok repo" "seg_ok rv" "list_all seg_ok (p # ps)"
    and org: "org \<noteq> ''datasets''" "\<not> is_space (hd org)"
    and at: "CHR ''@'' \<notin> set repo" "CHR ''@'' \<notin> set rv"
    and p: "p \<noteq> ''resolve''" "p \<noteq> ''blob''"
    and lit: "lit = ''resolve'' \<or> lit = ''blob''"
    and suffix: "endsWith (toLowerCase (last (p # ps))) ''.parquet''"
  shows
    "parseHFParquetPath (join_with ''/'' (org # repo # p # ps)) =
       Inr \<lparr> repoId = org @ ''/'' @ repo, revision = ''main'',
             filePath = join_with ''/'' (p # ps), repoType = Auto \<rparr> \<and>
     parseHFParquetPath (join_with ''/'' (org # (repo @ ''@'' @ rv) # p # ps)) =
       Inr \<lparr> repoId = org @ ''/'' @ repo, revision = rv,
             filePath = join_with ''/'' (p # ps), repoType = Auto \<rparr> \<and>
     parseHFParquetPath (join_with ''/'' (''datasets'' # org # repo # p # ps)) =
       Inr \<lparr> repoId = org @ ''/'' @ repo, revision = ''main'',
             filePath = join_with ''/'' (p # ps), repoType = Datasets \<rparr> \<and>
     parseHFParquetPath (''https://huggingface.co/'' @
         join_with ''/'' (''datasets'' # org # repo # lit # rv # p # ps)) =
       Inr \<lparr> repoId = org @ ''/'' @ repo, revision = rv,
             filePath = join_with ''/'' (p # ps), repoType = Datasets \<rparr> \<and>
     parseHFParquetPath (''https://huggingface.co/'' @
         join_with ''/'' (org # repo # lit # rv # p # ps)) =
       Inr \<lparr> repoId = org @ ''/'' @ repo, revision = rv,
             filePath = join_with ''/'' (p # ps), repoType = Models \<rparr>"
proof -
  from parquet_suffix_last [OF suffix] have nsp: "\<not> is_space (last (last (p # ps)))" by simp
  have pj: "endsWith (toLowerCase (join_with ''/'' (p # ps))) ''.parquet''"
    using parquet_join [OF _ suffix] by simp
  have dsok: "seg_ok ''datasets''" by (simp add: seg_ok_def)
  have litok: "seg_ok lit" using lit by (auto simp: seg_ok_def)
  have rvne: "rv \<noteq> []" using segs by (simp add: seg_ok_def)
  have rrok: "seg_ok (repo @ ''@'' @ rv)" using segs by (simp add: seg_ok_def)
  have 1: "hf_parts (join_with ''/'' (org # repo # p # ps)) = org # repo # p # ps"
    using segs org nsp by (intro hf_parts_segments) simp_all
  have bare: "parseHFParquetPath (join_with ''/'' (org # repo # p # ps)) =
      Inr \<lparr> repoId = org @ ''/'' @ repo, revision = ''main'',
            filePath = join_with ''/'' (p # ps), repoType = Auto \<rparr>"
    unfolding parseHFParquetPath_def 1
    using org p pj at
    by (simp add: parse_parts_def initial_repoType_def repo_index_def isResolveOrBlob_def
        nth_opt_def split_revision_plain)
  have 2: "hf_parts (join_with ''/'' (org # (repo @ ''@'' @ rv) # p # ps)) =
      org # (repo @ ''@'' @ rv) # p # ps"
    using segs org nsp rrok by (intro hf_parts_segments) simp_all
  have with_rev: "parseHFParquetPath (join_with ''/'' (org # (repo @ ''@'' @ rv) # p # ps)) =
      Inr \<lparr> repoId = org @ ''/'' @ repo, revision = rv,
            filePath = join_with ''/'' (p # ps), repoType = Auto \<rparr>"
    unfolding parseHFParquetPath_def 2
    using org p pj split_revision_at [of repo rv] segs at
    by (simp add: parse_parts_def initial_repoType_def repo_index_def isResolveOrBlob_def
        nth_opt_def seg_ok_def)
  have 3: "hf_parts (join_with ''/'' (''datasets'' # org # repo # p # ps)) =
      ''datasets'' # org # repo # p # ps"
    using segs dsok nsp by (intro hf_parts_segments) (simp_all add: is_space_def)
  have prefixed: "parseHFParquetPath (join_with ''/'' (''datasets'' # org # repo # p # ps)) =
      Inr \<lparr> repoId = org @ ''/'' @ repo, revision = ''main'',
            filePath = join_with ''/'' (p # ps), repoType = Datasets \<rparr>"
    unfolding parseHFParquetPath_def 3
    using p pj at
    by (simp add: parse_parts_def initial_repoType_def repo_index_def isResolveOrBlob_def
        nth_opt_def split_revision_plain)
  have 4: "hf_parts (''https://huggingface.co/'' @
      join_with ''/'' (''datasets'' # org # repo # lit # rv # p # ps)) =
      ''datasets'' # org # repo # lit # rv # p # ps"
    using segs dsok litok nsp by (intro hf_parts_url) simp_all
  have url_datasets: "parseHFParquetPath (''https://huggingface.co/'' @
      join_with ''/'' (''datasets'' # org # repo # lit # rv # p # ps)) =
      Inr \<lparr> repoId = org @ ''/'' @ repo, revision = rv,
            filePath = join_with ''/'' (p # ps), repoType = Datasets \<rparr>"
    unfolding parseHFParquetPath_def 4
    using lit pj rvne
    by (auto simp add: parse_parts_def initial_repoType_def repo_index_def isResolveOrBlob_def
        nth_opt_def)
  have 5: "hf_parts (''https://huggingface.co/'' @
      join_with ''/'' (org # repo # lit # rv # p # ps)) = org # repo # lit # rv # p # ps"
    using segs litok nsp by (intro hf_parts_url) simp_all
  have url_models: "parseHFParquetPath (''https://huggingface.co/'' @
      join_with ''/'' (org # repo # lit # rv # p # ps)) =
      Inr \<lparr> repoId = org @ ''/'' @ repo, revision = rv,
            filePath = join_with ''/'' (p # ps), repoType = Models \<rparr>"
    unfolding parseHFParquetPath_def 5
    using lit pj rvne org
    by (auto simp add: parse_parts_def initial_repoType_def repo_index_def isResolveOrBlob_def
        nth_opt_def)
  from bare with_rev prefixed url_datasets url_models show ?thesis by (intro conjI)
qed

theorem parse_shapes_witness:
  "parseHFParquetPath ''acme/cats/data/train.parquet'' =
     Inr \<lparr> repoId = ''acme/cats'', revision = ''main'',
           filePath = ''data/train.parquet'', repoType = Auto \<rparr> \<and>
   parseHFParquetPath ''acme/cats@v2/data/train.parquet'' =
     Inr \<lparr> repoId = ''acme/cats'', revision = ''v2'',
           filePath = ''data/train.parquet'', repoType = Auto \<rparr> \<and>
   parseHFParquetPath ''datasets/acme/cats/data/train.parquet'' =
     Inr \<lparr> repoId = ''acme/cats'', revision = ''main'',
           filePath = ''data/train.parquet'', repoType = Datasets \<rparr> \<and>
   parseHFParquetPath ''https://huggingface.co/datasets/acme/cats/resolve/v2/data/train.parquet'' =
     Inr \<lparr> repoId = ''acme/cats'', revision = ''v2'',
           filePath = ''data/train.parquet'', repoType = Datasets \<rparr> \<and>
   parseHFParquetPath ''https://huggingface.co/acme/cats/resolve/v2/data/train.parquet'' =
     Inr \<lparr> repoId = ''acme/cats'', revision = ''v2'',
           filePath = ''data/train.parquet'', repoType = Models \<rparr>"
proof -
  have "seg_ok ''acme''" "seg_ok ''cats''" "seg_ok ''v2''"
    "list_all seg_ok [''data'', ''train.parquet'']"
    "''acme'' \<noteq> ''datasets''" "\<not> is_space (hd ''acme'')"
    "CHR ''@'' \<notin> set ''cats''" "CHR ''@'' \<notin> set ''v2''"
    "''data'' \<noteq> ''resolve''" "''data'' \<noteq> ''blob''"
    "''resolve'' = ''resolve'' \<or> ''resolve'' = ''blob''"
    "endsWith (toLowerCase (last [''data'', ''train.parquet''])) ''.parquet''"
    by (simp_all add: seg_ok_def is_space_def endsWith_def toLowerCase_def lower_char_def)
  from parse_shapes [OF this] show ?thesis by simp
qed

text \<open>
  Claim C3 as stated fails on \<open>repoType\<close>: the file \<open>data/train.parquet\<close> of the dataset
  repository \<open>acme/cats\<close> at \<open>main\<close> parses to \<open>Auto\<close> in the bare shape and to \<open>Datasets\<close>
  in the prefixed shape and as a URL.
\<close>

theorem parse_shapes_repoType_differs:
  "parseHFParquetPath ''acme/cats/data/train.parquet'' =
     Inr \<lparr> repoId = ''acme/cats'', revision = ''main'',
           filePath = ''data/train.parquet'', repoType = Auto \<rparr> \<and>
   parseHFParquetPath ''datasets/acme/cats/data/train.parquet'' =
     Inr \<lparr> repoId = ''acme/cats'', revision = ''main'',
           filePath = ''data/train.parquet'', repoType = Datasets \<rparr> \<and>
   parseHFParquetPath ''https://huggingface.co/datasets/acme/cats/resolve/main/data/train.parquet'' =
     Inr \<lparr> repoId = ''acme/cats'', revision = ''main'',
           filePath = ''data/train.parquet'', repoType = Datasets \<rparr> \<and>
   parseHFParquetPath ''acme/cats/data/train.parquet'' \<noteq>
     parseHFParquetPath ''datasets/acme/cats/data/train.parquet''"
  by code_simp

text \<open>
  The conditions on the segments are needed.  A file path that starts with \<open>resolve\<close> is
  read, in the bare shape, as the URL shape: its second segment becomes the revision.  An
  organisation named \<open>datasets\<close> is read as the prefix.  Of a repository or revision with
  \<open>@\<close>, the shape \<open>org/repo@rv/path\<close> keeps what stands before the first and the second
  \<open>@\<close>, while the URL shape keeps the whole revision.
\<close>

lemma parse_shapes_outside_conditions:
  "parseHFParquetPath ''acme/cats/resolve/x/y.parquet'' =
     Inr \<lparr> repoId = ''acme/cats'', revision = ''x'',
           filePath = ''y.parquet'', repoType = Models \<rparr> \<and>
   parseHFParquetPath ''datasets/cats/data/train.parquet'' =
     Inr \<lparr> repoId = ''cats/data'', revision = ''main'',
           filePath = ''train.parquet'', repoType = Datasets \<rparr> \<and>
   parseHFParquetPath ''acme/ca@ts@v2/data/train.parquet'' =
     Inr \<lparr> repoId = ''acme/ca'', revision = ''ts'',
           filePath = ''data/train.parquet'', repoType = Auto \<rparr> \<and>
   parseHFParquetPath ''acme/cats@v@2/data/train.parquet'' =
     Inr \<lparr> repoId = ''acme/cats'', revision = ''v'',
           filePath = ''data/train.parquet'', repoType = Auto \<rparr> \<and>
   parseHFParquetPath ''https://huggingface.co/acme/cats/resolve/v@2/data/train.parquet'' =
     Inr \<lparr> repoId = ''acme/cats'', revision = ''v@2'',
           filePath = ''data/train.parquet'', repoType = Models \<rparr>"
  by code_simp

section \<open>Properties of the row loop\<close>

lemma main_step_cases:
  "(\<exists>fs tr. main_step pf a tbl i st = st\<lparr> skipped := skipped st + 1, files := fs, requests := tr \<rparr>) \<or>
   (\<exists>fs tr. main_step pf a tbl i st = st\<lparr> imported := imported st + 1, files := fs, requests := tr \<rparr>) \<or>
   (\<exists>fs tr e. import_row pf a tbl i (files st) (requests st) = ((fs, tr), Inl e) \<and>
      main_step pf a tbl i st = st\<lparr> errors := errors st @ [(i, e)], files := fs, requests := tr \<rparr>)"
  unfolding main_step_def
  by (auto split: prod.splits sum.splits row_outcome.splits)

lemma main_step_tally: "tally (main_step pf a tbl i st) = tally st + 1"
  using main_step_cases [of pf a tbl i st] by (auto simp: tally_def)

lemma main_step_errors:
  "errors (main_step pf a tbl i st) = errors st \<or>
   (\<exists>e. (\<exists>fs tr. snd (import_row pf a tbl i fs tr) = Inl e) \<and>
        errors (main_step pf a tbl i st) = errors st @ [(i, e)])"
  using main_step_cases [of pf a tbl i st]
proof (elim disjE exE conjE)
  fix fs tr e
  assume ir: "import_row pf a tbl i (files st) (requests st) = ((fs, tr), Inl e)"
    and ms: "main_step pf a tbl i st = st\<lparr> errors := errors st @ [(i, e)], files := fs, requests := tr \<rparr>"
  from ir have "snd (import_row pf a tbl i (files st) (requests st)) = Inl e" by simp
  then have "\<exists>fs tr. snd (import_row pf a tbl i fs tr) = Inl e" by blast
  then show ?thesis using ms by simp
qed simp_all

lemma main_loop_tally:
  "tally (main_loop pf a tbl i st) = tally st + (numRows tbl + 1 - i)"
proof (induction pf a tbl i st rule: main_loop.induct)
  case (1 pf a tbl rowIndex st)
  show ?case
  proof (cases "rowIndex \<le> numRows tbl")
    case True
    with 1 show ?thesis
      by (subst main_loop.simps) (simp add: main_step_tally)
  next
    case False
    then show ?thesis by (subst main_loop.simps) simp
  qed
qed

lemma main_loop_errors:
  "\<exists>new. errors (main_loop pf a tbl i st) = errors st @ new \<and>
      sorted_wrt (<) (map fst new) \<and>
      (\<forall>(k, e) \<in> set new. i \<le> k \<and> k \<le> numRows tbl \<and>
          (\<exists>fs tr. snd (import_row pf a tbl k fs tr) = Inl e))"
proof (induction pf a tbl i st rule: main_loop.induct)
  case (1 pf a tbl rowIndex st)
  show ?case
  proof (cases "rowIndex \<le> numRows tbl")
    case True
    let ?st1 = "main_step pf a tbl rowIndex st"
    from 1 [OF True] obtain new where new:
      "errors (main_loop pf a tbl (rowIndex + 1) ?st1) = errors ?st1 @ new"
      "sorted_wrt (<) (map fst new)"
      "\<forall>(k, e) \<in> set new. rowIndex + 1 \<le> k \<and> k \<le> numRows tbl \<and>
          (\<exists>fs tr. snd (import_row pf a tbl k fs tr) = Inl e)"
      by blast
    have ml: "main_loop pf a tbl rowIndex st = main_loop pf a tbl (rowIndex + 1) ?st1"
      using True by (subst main_loop.simps) simp
    from main_step_errors [of pf a tbl rowIndex st]
    show ?thesis
    proof
      assume "errors ?st1 = errors st"
      with new ml show ?thesis by (intro exI [of _ new]) fastforce
    next
      assume "\<exists>e. (\<exists>fs tr. snd (import_row pf a tbl rowIndex fs tr) = Inl e) \<and>
        errors ?st1 = errors st @ [(rowIndex, e)]"
      then obtain e where e: "\<exists>fs tr. snd (import_row pf a tbl rowIndex fs tr) = Inl e"
        "errors ?st1 = errors st @ [(rowIndex, e)]" by blast
      have "sorted_wrt (<) (map fst ((rowIndex, e) # new))"
        using new(2,3) by fastforce
      moreover have "\<forall>(k, e) \<in> set ((rowIndex, e) # new). rowIndex \<le> k \<and> k \<le> numRows tbl \<and>
          (\<exists>fs tr. snd (import_row pf a tbl k fs tr) = Inl e)"
        using new(3) e(1) True by fastforce
      ultimately show ?thesis using new(1) e(2) ml
        by (intro exI [of _ "(rowIndex, e) # new"]) simp
    qed
  next
    case False
    then have "main_loop pf a tbl rowIndex st = st" by (subst main_loop.simps) simp
    then show ?thesis by simp
  qed
qed






lemma main_fails_before_loop:
  "main pf a fs = Inl err \<longleftrightarrow>
     ((\<not> arg_truthy a ''datasetDir'' \<or> \<not> arg_truthy a ''parquetFile'') \<and> err = MissingArgs) \<or>
     (arg_truthy a ''datasetDir'' \<and> arg_truthy a ''parquetFile'' \<and>
      readTable pf (opt_string (a ''parquetFile'')) = None \<and> err = DecodeFailed)"
  unfolding main_def by (auto split: option.splits)

lemma skip_missing_image:
  assumes "\<not> truthy (pickImageColumn (getRow tbl (i - 1)))"
  shows "main_step pf a tbl i st = st\<lparr> skipped := skipped st + 1 \<rparr>"
  using assms by (simp add: main_step_def import_row_def Let_def)

lemma no_bytes_is_error:
  assumes "truthy (pickImageColumn (getRow tbl (i - 1)))"
    and "coerceToBuffer (nullish_or (nullish_or
            (getStructField (pickImageColumn (getRow tbl (i - 1))) ''bytes'')
            (getStructField (pickImageColumn (getRow tbl (i - 1))) ''data'')) JNull) = None"
    and "\<not> truthy (getStructField (pickImageColumn (getRow tbl (i - 1))) ''path'') \<or>
         \<not> arg_truthy a ''repoId''"
  shows "main_step pf a tbl i st = st\<lparr> errors := errors st @ [(i, CouldNotExtractImageBytes)] \<rparr>"
  using assms by (auto simp add: main_step_def import_row_def image_bytes_def Let_def)

lemmas eval_row =
  import_row_def example_platform_def example_args_def example_table_def no_bytes_table_def
  getRow_def pickImageColumn_def row_property_def image_bytes_def nullish_or_def lookup_key_def
  arg_truthy_def

lemma example_errors:
  "errors (main_loop example_platform example_args example_table 1 (initial_state Map.empty)) =
     [(2, CouldNotExtractImageBytes)]"
  by code_simp


text \<open>
  Claim C9.  After the loop has run over a table of \<open>N\<close> rows from the empty summary,
  \<open>imported + skipped + errors.length = N\<close>; every entry of the error list has a row index
  between 1 and \<open>N\<close> and holds the error that the body threw for that index (the row at
  \<open>index - 1\<close> of the table); and the row indices of the list increase strictly.
\<close>

theorem summary_invariant:
  "imported (main_loop pf a tbl 1 (initial_state fs)) +
   skipped (main_loop pf a tbl 1 (initial_state fs)) +
   length (errors (main_loop pf a tbl 1 (initial_state fs))) = numRows tbl \<and>
   (\<forall>(k, e) \<in> set (errors (main_loop pf a tbl 1 (initial_state fs))).
      1 \<le> k \<and> k \<le> numRows tbl \<and> (\<exists>fs' tr. snd (import_row pf a tbl k fs' tr) = Inl e)) \<and>
   sorted_wrt (<) (map fst (errors (main_loop pf a tbl 1 (initial_state fs))))"
proof -
  have "tally (main_loop pf a tbl 1 (initial_state fs)) = numRows tbl"
    using main_loop_tally [of pf a tbl 1 "initial_state fs"]
    by (simp add: tally_def initial_state_def)
  moreover from main_loop_errors [of pf a tbl 1 "initial_state fs"]
  obtain new where "errors (main_loop pf a tbl 1 (initial_state fs)) = new"
    "sorted_wrt (<) (map fst new)"
    "\<forall>(k, e) \<in> set new. 1 \<le> k \<and> k \<le> numRows tbl \<and>
          (\<exists>fs tr. snd (import_row pf a tbl k fs tr) = Inl e)"
    by (auto simp: initial_state_def)
  ultimately show ?thesis by (simp add: tally_def)
qed

theorem summary_invariant_witness:
  "imported (main_loop example_platform example_args example_table 1 (initial_state Map.empty)) +
   skipped (main_loop example_platform example_args example_table 1 (initial_state Map.empty)) +
   length (errors (main_loop example_platform example_args example_table 1
             (initial_state Map.empty))) = 3 \<and>
   errors (main_loop example_platform example_args example_table 1 (initial_state Map.empty)) =
     [(2, CouldNotExtractImageBytes)] \<and>
   sorted_wrt (<) (map fst (errors (main_loop example_platform example_args example_table 1
     (initial_state Map.empty))))"
proof -
  have n: "numRows example_table = 3" by (simp add: example_table_def)
  from summary_invariant [of example_platform example_args example_table Map.empty]
  show ?thesis unfolding n using example_errors by blast
qed



text \<open>
  Claim C2 as stated fails: a row whose image is a struct with \<open>bytes\<close> and \<open>path\<close> both
  \<open>null\<close> gives no bytes by either route, and the loop records it in the error list, by
  the \<open>throw\<close> of \<open>Could not extract image bytes\<close>, without counting it as skipped.
\<close>

theorem struct_without_bytes_is_error:
  "pickImageColumn (getRow no_bytes_table 0) = JObject [(''bytes'', JNull), (''path'', JNull)] \<and>
   errors (main_loop example_platform example_args no_bytes_table 1 (initial_state Map.empty)) =
     [(1, CouldNotExtractImageBytes)] \<and>
   skipped (main_loop example_platform example_args no_bytes_table 1 (initial_state Map.empty)) = 0"
proof -
  have "pickImageColumn (getRow no_bytes_table 0) = JObject [(''bytes'', JNull), (''path'', JNull)]"
    by (simp add: eval_row)
  moreover have "errors (main_loop example_platform example_args no_bytes_table 1
      (initial_state Map.empty)) = [(1, CouldNotExtractImageBytes)]"
    by code_simp
  moreover have "skipped (main_loop example_platform example_args no_bytes_table 1
      (initial_state Map.empty)) = 0"
    by code_simp
  ultimately show ?thesis by simp
qed

text \<open>
  Claim C2, as the code has it.  A row whose image column is missing, \<open>null\<close> or otherwise
  falsy is skipped: the counter goes up by one and nothing else changes.  A row whose
  image value is there, has no embedded bytes under \<open>bytes\<close> or \<open>data\<close>, and has no path
  (or the script has no repository to fetch it from) is recorded in the error list with
  the error \<open>Could not extract image bytes\<close>, and nothing else changes.
\<close>

theorem imageless_row_outcome:
  "(\<not> truthy (pickImageColumn (getRow tbl (i - 1))) \<longrightarrow>
      main_step pf a tbl i st = st\<lparr> skipped := skipped st + 1 \<rparr>) \<and>
   (truthy (pickImageColumn (getRow tbl (i - 1))) \<and>
    coerceToBuffer (nullish_or (nullish_or
        (getStructField (pickImageColumn (getRow tbl (i - 1))) ''bytes'')
        (getStructField (pickImageColumn (getRow tbl (i - 1))) ''data'')) JNull) = None \<and>
    (\<not> truthy (getStructField (pickImageColumn (getRow tbl (i - 1))) ''path'') \<or>
     \<not> arg_truthy a ''repoId'') \<longrightarrow>
      main_step pf a tbl i st = st\<lparr> errors := errors st @ [(i, CouldNotExtractImageBytes)] \<rparr>)"
  using skip_missing_image [of tbl i pf a st] no_bytes_is_error [of tbl i a pf st] by blast

theorem imageless_row_outcome_witness:
  "skipped (main_step example_platform example_args example_table 3 (initial_state Map.empty)) = 1 \<and>
   errors (main_step example_platform example_args example_table 3 (initial_state Map.empty)) = [] \<and>
   skipped (main_step example_platform example_args example_table 2 (initial_state Map.empty)) = 0 \<and>
   errors (main_step example_platform example_args example_table 2 (initial_state Map.empty)) =
     [(2, CouldNotExtractImageBytes)]"
  using imageless_row_outcome [of example_table 3 example_platform example_args "initial_state Map.empty"]
    imageless_row_outcome [of example_table 2 example_platform example_args "initial_state Map.empty"]
  by (simp add: eval_row initial_state_def)

section \<open>Properties of the File Writer\<close>



text \<open>A write that succeeds leaves a file at its path and removes nothing.\<close>

lemma writeFileSync_grows:
  "writeFileSync denied fs p d = Inr fs' \<Longrightarrow>
     existsSync fs' p \<and> (\<forall>q. existsSync fs q \<longrightarrow> existsSync fs' q)"
  by (auto simp: writeFileSync_def existsSync_def split: if_splits)





























section \<open>Properties of the Remote Fetcher\<close>

lemma fetch_eq: "fetch net tr u h = (tr @ [(u, h, net (length tr) u h)], net (length tr) u h)"
  by (simp add: fetch_def Let_def)

lemma tryFetch_eq:
  "tryFetch net tr u h = (tr @ [(u, h, net (length tr) u h)], attempt_of u (net (length tr) u h))"
  by (simp add: tryFetch_def fetch_eq attempt_of_def split: fetch_result.splits)

lemma auth_loop_Cons:
  "auth_loop net b tr (u # us) =
     (if \<not> failed (net (length tr) u (Some b))
      then (tr @ [(u, Some b, net (length tr) u (Some b))],
            map_sum id Some (attempt_of u (net (length tr) u (Some b))))
      else if \<not> failed (net (length tr + 1) u None)
      then (tr @ [(u, Some b, net (length tr) u (Some b)), (u, None, net (length tr + 1) u None)],
            map_sum id Some (attempt_of u (net (length tr + 1) u None)))
      else auth_loop net b
             (tr @ [(u, Some b, net (length tr) u (Some b)), (u, None, net (length tr + 1) u None)])
             us)"
proof (cases "net (length tr) u (Some b)")
  case Rejected
  then show ?thesis by (simp add: tryFetch_eq attempt_of_def failed_def)
next
  case r1: (Responded res1)
  show ?thesis
  proof (cases "res_ok res1")
    case True
    with r1 show ?thesis by (simp add: tryFetch_eq attempt_of_def failed_def)
  next
    case f1: False
    show ?thesis
    proof (cases "net (length tr + 1) u None")
      case Rejected
      with r1 f1 show ?thesis by (simp add: tryFetch_eq attempt_of_def failed_def)
    next
      case r2: (Responded res2)
      with r1 f1 show ?thesis
        by (cases "res_ok res2") (simp_all add: tryFetch_eq attempt_of_def failed_def)
    qed
  qed
qed

lemma noauth_loop_Cons:
  "noauth_loop net tr (u # us) =
     (if \<not> failed (net (length tr) u None)
      then (tr @ [(u, None, net (length tr) u None)],
            map_sum id Some (attempt_of u (net (length tr) u None)))
      else noauth_loop net (tr @ [(u, None, net (length tr) u None)]) us)"
proof (cases "net (length tr) u None")
  case Rejected
  then show ?thesis by (simp add: tryFetch_eq attempt_of_def failed_def)
next
  case r1: (Responded res1)
  then show ?thesis
    by (cases "res_ok res1") (simp_all add: tryFetch_eq attempt_of_def failed_def)
qed

lemma finish_loop:
  "(case map_sum id Some x of
        Inl e \<Rightarrow> (t, Inl e)
      | Inr None \<Rightarrow> k
      | Inr (Some a) \<Rightarrow> (t, Inr a)) = (t, x)"
  by (cases x) auto

text \<open>The requests of the branch with a token, as a decision list.\<close>

lemma tryWithFallbackAuth_token:
  fixes net :: network and token url :: string and tr :: trace
  assumes "token \<noteq> []"
  defines "A \<equiv> Some (''Bearer '' @ token)" and "dq \<equiv> withDownloadQuery url"
  defines "n \<equiv> length tr"
  defines "r1 \<equiv> net n url A" and "r2 \<equiv> net (n + 1) url None"
    and "r3 \<equiv> net (n + 2) dq A" and "r4 \<equiv> net (n + 3) dq None" and "r5 \<equiv> net (n + 4) dq A"
  shows "tryWithFallbackAuth net token tr url =
    (if \<not> failed r1 then (tr @ [(url, A, r1)], attempt_of url r1)
     else if \<not> failed r2 then (tr @ [(url, A, r1), (url, None, r2)], attempt_of url r2)
     else if \<not> failed r3 then
       (tr @ [(url, A, r1), (url, None, r2), (dq, A, r3)], attempt_of dq r3)
     else if \<not> failed r4 then
       (tr @ [(url, A, r1), (url, None, r2), (dq, A, r3), (dq, None, r4)], attempt_of dq r4)
     else (tr @ [(url, A, r1), (url, None, r2), (dq, A, r3), (dq, None, r4), (dq, A, r5)],
           attempt_of dq r5))"
proof -
  have loop: "auth_loop net (''Bearer '' @ token) tr [url, dq] =
    (if \<not> failed r1 then (tr @ [(url, A, r1)], map_sum id Some (attempt_of url r1))
     else if \<not> failed r2 then
       (tr @ [(url, A, r1), (url, None, r2)], map_sum id Some (attempt_of url r2))
     else if \<not> failed r3 then
       (tr @ [(url, A, r1), (url, None, r2), (dq, A, r3)], map_sum id Some (attempt_of dq r3))
     else if \<not> failed r4 then
       (tr @ [(url, A, r1), (url, None, r2), (dq, A, r3), (dq, None, r4)],
        map_sum id Some (attempt_of dq r4))
     else (tr @ [(url, A, r1), (url, None, r2), (dq, A, r3), (dq, None, r4)], Inr None))"
    unfolding auth_loop_Cons
    by (simp add: A_def r1_def r2_def r3_def r4_def n_def eval_nat_numeral)
  show ?thesis
    unfolding tryWithFallbackAuth_def Let_def loop [unfolded dq_def]
    using assms(1)
    by (simp add: finish_loop tryFetch_eq A_def r1_def r2_def r3_def r4_def r5_def n_def dq_def
        eval_nat_numeral)
qed

lemma tryWithFallbackAuth_notoken:
  fixes net :: network and url :: string and tr :: trace
  defines "dq \<equiv> withDownloadQuery url"
  defines "n \<equiv> length tr"
  defines "r1 \<equiv> net n url None" and "r2 \<equiv> net (n + 1) dq None" and "r3 \<equiv> net (n + 2) dq None"
  shows "tryWithFallbackAuth net [] tr url =
    (if \<not> failed r1 then (tr @ [(url, None, r1)], attempt_of url r1)
     else if \<not> failed r2 then (tr @ [(url, None, r1), (dq, None, r2)], attempt_of dq r2)
     else (tr @ [(url, None, r1), (dq, None, r2), (dq, None, r3)], attempt_of dq r3))"
proof -
  have loop: "noauth_loop net tr [url, dq] =
    (if \<not> failed r1 then (tr @ [(url, None, r1)], map_sum id Some (attempt_of url r1))
     else if \<not> failed r2 then
       (tr @ [(url, None, r1), (dq, None, r2)], map_sum id Some (attempt_of dq r2))
     else (tr @ [(url, None, r1), (dq, None, r2)], Inr None))"
    unfolding noauth_loop_Cons
    by (simp add: r1_def r2_def n_def eval_nat_numeral)
  show ?thesis
    unfolding tryWithFallbackAuth_def Let_def loop [unfolded dq_def]
    by (simp add: finish_loop tryFetch_eq r1_def r2_def r3_def n_def dq_def eval_nat_numeral)
qed

lemma failed_Responded: "failed r \<Longrightarrow> \<exists>res. r = Responded res \<and> \<not> res_ok res"
  by (cases r) (auto simp: failed_def)

lemma in_order_explicit5:
  assumes "failed r1" "failed r2" "failed r3" "failed r4"
    and "r1 = net (length tr) u1 h1" "r2 = net (length tr + 1) u2 h2"
    and "r3 = net (length tr + 2) u3 h3" "r4 = net (length tr + 3) u4 h4"
    and "r5 = net (length tr + 4) u5 h5"
  shows "in_order net tr [(u1, h1), (u2, h2), (u3, h3), (u4, h4), (u5, h5)]
           [(u1, h1, r1), (u2, h2, r2), (u3, h3, r3), (u4, h4, r4), (u5, h5, r5)]"
  using assms unfolding in_order_def requests_of_def
  by (auto simp: nth_Cons' less_Suc_eq eval_nat_numeral)

lemma in_order_explicit3:
  assumes "failed r1" "failed r2"
    and "r1 = net (length tr) u1 h1" "r2 = net (length tr + 1) u2 h2"
    and "r3 = net (length tr + 2) u3 h3"
  shows "in_order net tr [(u1, h1), (u2, h2), (u3, h3)] [(u1, h1, r1), (u2, h2, r2), (u3, h3, r3)]"
  using assms unfolding in_order_def requests_of_def
  by (auto simp: nth_Cons' less_Suc_eq eval_nat_numeral)

lemma tryWithFallbackAuth_allfail:
  assumes allfail: "\<forall>n u h. failed (net n u h)"
  shows "\<exists>new res.
    tryWithFallbackAuth net token tr url =
      (tr @ new, Inr (AttemptErr (err_attempt (withDownloadQuery url) res))) \<and>
    in_order net tr (plan_for token url) new \<and> length new = length (plan_for token url) \<and>
    snd (snd (last new)) = Responded res \<and> \<not> res_ok res"
proof (cases "token = []")
  case True
  let ?dq = "withDownloadQuery url"
  let ?r1 = "net (length tr) url None" and ?r2 = "net (length tr + 1) ?dq None"
    and ?r3 = "net (length tr + 2) ?dq None"
  from allfail have f: "failed ?r1" "failed ?r2" "failed ?r3" by blast+
  from failed_Responded [OF f(3)] obtain res where res: "?r3 = Responded res" "\<not> res_ok res"
    by blast
  have eq: "tryWithFallbackAuth net token tr url =
      (tr @ [(url, None, ?r1), (?dq, None, ?r2), (?dq, None, ?r3)], attempt_of ?dq ?r3)"
    using f True by (simp add: tryWithFallbackAuth_notoken)
  have io: "in_order net tr (plan_for token url) [(url, None, ?r1), (?dq, None, ?r2), (?dq, None, ?r3)]"
    unfolding plan_for_def noauth_plan_def using True f
    by (simp add: in_order_explicit3)
  show ?thesis
    using eq io res True
    by (intro exI [of _ "[(url, None, ?r1), (?dq, None, ?r2), (?dq, None, ?r3)]"] exI [of _ res])
      (simp add: attempt_of_def plan_for_def noauth_plan_def)
next
  case False
  let ?dq = "withDownloadQuery url" and ?A = "Some (''Bearer '' @ token)"
  let ?r1 = "net (length tr) url ?A" and ?r2 = "net (length tr + 1) url None"
    and ?r3 = "net (length tr + 2) ?dq ?A" and ?r4 = "net (length tr + 3) ?dq None"
    and ?r5 = "net (length tr + 4) ?dq ?A"
  let ?new = "[(url, ?A, ?r1), (url, None, ?r2), (?dq, ?A, ?r3), (?dq, None, ?r4), (?dq, ?A, ?r5)]"
  from allfail have f: "failed ?r1" "failed ?r2" "failed ?r3" "failed ?r4" "failed ?r5" by blast+
  from failed_Responded [OF f(5)] obtain res where res: "?r5 = Responded res" "\<not> res_ok res"
    by blast
  have eq: "tryWithFallbackAuth net token tr url = (tr @ ?new, attempt_of ?dq ?r5)"
    using f False by (simp add: tryWithFallbackAuth_token)
  have io: "in_order net tr (plan_for token url) ?new"
    unfolding plan_for_def auth_plan_def using False f
    by (simp add: in_order_explicit5)
  show ?thesis
    using eq io res False
    by (intro exI [of _ ?new] exI [of _ res])
      (simp add: attempt_of_def plan_for_def auth_plan_def)
qed

lemma tryFetch_mjs_eq:
  "tryFetch_mjs net tr u h = (tr @ [(u, h, net (length tr) u h)], body_of (net (length tr) u h))"
  by (simp add: tryFetch_mjs_def fetch_eq body_of_def split: fetch_result.splits)

lemma body_of_succeeded: "succeeded r \<longleftrightarrow> (\<exists>buf. body_of r = Inr buf)"
  by (cases r) (auto simp: succeeded_def body_of_def)

lemma tryRepoType_token:
  assumes "cleanToken \<noteq> []"
  shows "tryRepoType net cleanToken tr url =
    (if succeeded (net (length tr) url (Some (''Bearer '' @ cleanToken)))
     then (tr @ [(url, Some (''Bearer '' @ cleanToken),
                  net (length tr) url (Some (''Bearer '' @ cleanToken)))],
           body_of (net (length tr) url (Some (''Bearer '' @ cleanToken))))
     else (tr @ [(url, Some (''Bearer '' @ cleanToken),
                  net (length tr) url (Some (''Bearer '' @ cleanToken))),
                 (url, None, net (length tr + 1) url None)],
           body_of (net (length tr + 1) url None)))"
  using assms unfolding tryRepoType_def tryFetch_mjs_eq
  by (cases "net (length tr) url (Some (''Bearer '' @ cleanToken))")
     (auto simp: succeeded_def body_of_def)

lemma example_download_error:
  "snd (downloadHFFile denying_network ''hf_secret'' [] example_ref) =
     Inl (DownloadFailed 401 ''Unauthorized''
       ''https://huggingface.co/datasets/acme/cats/resolve/main/data/train.parquet?download=true''
       ''Invalid credentials'')"
  by code_simp

text \<open>
  Claim C6.  With a cleaned token that is not empty, \<open>tryWithFallbackAuth\<close> makes its
  requests in the order of \<open>auth_plan\<close>: each candidate URL first with the \<open>Authorization\<close>
  header, then the same URL without it, then the next candidate; it goes on only after a
  response outside 200-299, and a response inside 200-299 ends it and is its result.
  When all four are outside, the last candidate is requested once more with the header
  and that answer is the result.  \<open>tryRepoType\<close> of the script asks its one URL with the
  header and, unless that gives a response inside 200-299, once more without it.
\<close>

theorem auth_first_then_unauthenticated:
  assumes tok: "token \<noteq> []"
  shows
    "(\<exists>new. fst (tryWithFallbackAuth net token tr url) = tr @ new \<and> new \<noteq> [] \<and>
        in_order net tr (auth_plan token url) new \<and>
        (case snd (tryWithFallbackAuth net token tr url) of
           Inr (AttemptOk a) \<Rightarrow>
             (\<exists>res. snd (snd (last new)) = Responded res \<and> res_ok res \<and>
                    a = ok_attempt (fst (last new)) res)
         | Inr (AttemptErr e) \<Rightarrow>
             length new = 5 \<and>
             (\<exists>res. snd (snd (last new)) = Responded res \<and> \<not> res_ok res \<and>
                    e = err_attempt (fst (last new)) res)
         | Inl e \<Rightarrow> snd (snd (last new)) = Rejected)) \<and>
     tryRepoType net token tr url =
       (if succeeded (net (length tr) url (Some (''Bearer '' @ token)))
        then (tr @ [(url, Some (''Bearer '' @ token),
                     net (length tr) url (Some (''Bearer '' @ token)))],
              body_of (net (length tr) url (Some (''Bearer '' @ token))))
        else (tr @ [(url, Some (''Bearer '' @ token),
                     net (length tr) url (Some (''Bearer '' @ token))),
                    (url, None, net (length tr + 1) url None)],
              body_of (net (length tr + 1) url None)))"
proof (rule conjI)
  let ?A = "Some (''Bearer '' @ token)" and ?dq = "withDownloadQuery url"
  let ?r1 = "net (length tr) url ?A" and ?r2 = "net (length tr + 1) url None"
    and ?r3 = "net (length tr + 2) ?dq ?A" and ?r4 = "net (length tr + 3) ?dq None"
    and ?r5 = "net (length tr + 4) ?dq ?A"
  let ?P = "\<lambda>new. fst (tryWithFallbackAuth net token tr url) = tr @ new \<and> new \<noteq> [] \<and>
        in_order net tr (auth_plan token url) new \<and>
        (case snd (tryWithFallbackAuth net token tr url) of
           Inr (AttemptOk a) \<Rightarrow>
             (\<exists>res. snd (snd (last new)) = Responded res \<and> res_ok res \<and>
                    a = ok_attempt (fst (last new)) res)
         | Inr (AttemptErr e) \<Rightarrow>
             length new = 5 \<and>
             (\<exists>res. snd (snd (last new)) = Responded res \<and> \<not> res_ok res \<and>
                    e = err_attempt (fst (last new)) res)
         | Inl e \<Rightarrow> snd (snd (last new)) = Rejected)"
  note dl = tryWithFallbackAuth_token [OF tok, of net tr url]
  have nf: "\<not> failed r \<Longrightarrow>
      (case attempt_of u r of
         Inr (AttemptOk a) \<Rightarrow> (\<exists>res. r = Responded res \<and> res_ok res \<and> a = ok_attempt u res)
       | Inr (AttemptErr e) \<Rightarrow> False
       | Inl e \<Rightarrow> r = Rejected)" for r u
    by (cases r) (auto simp: attempt_of_def failed_def)
  have ff: "failed r \<Longrightarrow>
      (case attempt_of u r of
         Inr (AttemptOk a) \<Rightarrow> False
       | Inr (AttemptErr e) \<Rightarrow> (\<exists>res. r = Responded res \<and> \<not> res_ok res \<and> e = err_attempt u res)
       | Inl e \<Rightarrow> False)" for r u
    by (cases r) (auto simp: attempt_of_def failed_def)
  consider (1) "\<not> failed ?r1"
    | (2) "failed ?r1" "\<not> failed ?r2"
    | (3) "failed ?r1" "failed ?r2" "\<not> failed ?r3"
    | (4) "failed ?r1" "failed ?r2" "failed ?r3" "\<not> failed ?r4"
    | (5) "failed ?r1" "failed ?r2" "failed ?r3" "failed ?r4"
    by blast
  then show "\<exists>new. ?P new"
  proof cases
    case 1
    have "?P [(url, ?A, ?r1)]"
      using 1 nf [OF 1, of url]
      by (auto simp: dl in_order_def requests_of_def auth_plan_def
          split: sum.splits HFDownloadAttempt.splits)
    then show ?thesis by blast
  next
    case 2
    have "?P [(url, ?A, ?r1), (url, None, ?r2)]"
      using 2 nf [OF 2(2), of url]
      by (auto simp: dl in_order_def requests_of_def auth_plan_def nth_Cons' less_Suc_eq
          split: sum.splits HFDownloadAttempt.splits)
    then show ?thesis by blast
  next
    case 3
    have "?P [(url, ?A, ?r1), (url, None, ?r2), (?dq, ?A, ?r3)]"
      using 3 nf [OF 3(3), of ?dq]
      by (auto simp: dl in_order_def requests_of_def auth_plan_def nth_Cons' less_Suc_eq
          eval_nat_numeral split: sum.splits HFDownloadAttempt.splits)
    then show ?thesis by blast
  next
    case 4
    have "?P [(url, ?A, ?r1), (url, None, ?r2), (?dq, ?A, ?r3), (?dq, None, ?r4)]"
      using 4 nf [OF 4(4), of ?dq]
      by (auto simp: dl in_order_def requests_of_def auth_plan_def nth_Cons' less_Suc_eq
          eval_nat_numeral split: sum.splits HFDownloadAttempt.splits)
    then show ?thesis by blast
  next
    case 5
    have "?P [(url, ?A, ?r1), (url, None, ?r2), (?dq, ?A, ?r3), (?dq, None, ?r4), (?dq, ?A, ?r5)]"
      using 5
      by (cases ?r5)
        (auto simp: dl in_order_def requests_of_def auth_plan_def nth_Cons' less_Suc_eq
          attempt_of_def eval_nat_numeral split: sum.splits HFDownloadAttempt.splits)
    then show ?thesis by blast
  qed
next
  show "tryRepoType net token tr url =
       (if succeeded (net (length tr) url (Some (''Bearer '' @ token)))
        then (tr @ [(url, Some (''Bearer '' @ token),
                     net (length tr) url (Some (''Bearer '' @ token)))],
              body_of (net (length tr) url (Some (''Bearer '' @ token))))
        else (tr @ [(url, Some (''Bearer '' @ token),
                     net (length tr) url (Some (''Bearer '' @ token))),
                    (url, None, net (length tr + 1) url None)],
              body_of (net (length tr + 1) url None)))"
    by (rule tryRepoType_token [OF tok])
qed

theorem auth_first_then_unauthenticated_witness:
  "requests_of (fst (tryWithFallbackAuth public_network ''hf_secret'' [] ''https://h/f'')) =
     [(''https://h/f'', Some ''Bearer hf_secret''), (''https://h/f'', None)] \<and>
   snd (tryWithFallbackAuth public_network ''hf_secret'' [] ''https://h/f'') =
     Inr (AttemptOk \<lparr> ok_buf = [0x50, 0x41, 0x52, 0x31, 0x50, 0x41, 0x52, 0x31],
       ok_status = 200, ok_statusText = ''OK'', ok_url = ''https://h/f'',
       ok_finalUrl = ''https://h/f'', ok_contentType = Some ''application/octet-stream'',
       ok_contentEncoding = None \<rparr>) \<and>
   tryRepoType public_network ''hf_secret'' [] ''https://h/f'' =
     ([(''https://h/f'', Some ''Bearer hf_secret'',
          public_network 0 ''https://h/f'' (Some ''Bearer hf_secret'')),
       (''https://h/f'', None, public_network 1 ''https://h/f'' None)],
      Inr [0x50, 0x41, 0x52, 0x31, 0x50, 0x41, 0x52, 0x31])"
proof -
  have tok: "''hf_secret'' \<noteq> []" by simp
  have a: "requests_of (fst (tryWithFallbackAuth public_network ''hf_secret'' [] ''https://h/f'')) =
     [(''https://h/f'', Some ''Bearer hf_secret''), (''https://h/f'', None)]"
    by code_simp
  have b: "snd (tryWithFallbackAuth public_network ''hf_secret'' [] ''https://h/f'') =
     Inr (AttemptOk \<lparr> ok_buf = [0x50, 0x41, 0x52, 0x31, 0x50, 0x41, 0x52, 0x31],
       ok_status = 200, ok_statusText = ''OK'', ok_url = ''https://h/f'',
       ok_finalUrl = ''https://h/f'', ok_contentType = Some ''application/octet-stream'',
       ok_contentEncoding = None \<rparr>)"
    by code_simp
  from auth_first_then_unauthenticated [OF tok, of public_network "[]" "''https://h/f''"]
  have "tryRepoType public_network ''hf_secret'' [] ''https://h/f'' =
     ([(''https://h/f'', Some ''Bearer hf_secret'',
          public_network 0 ''https://h/f'' (Some ''Bearer hf_secret'')),
       (''https://h/f'', None, public_network 1 ''https://h/f'' None)],
      Inr [0x50, 0x41, 0x52, 0x31, 0x50, 0x41, 0x52, 0x31])"
    by (simp add: succeeded_def body_of_def public_network_def res_ok_def)
  with a b show ?thesis by blast
qed

text \<open>
  Claim C4, as the code has it.  When every request gets a response outside 200-299, the
  requests of \<open>downloadHFFile\<close> are those of the plan for the given repository type (for
  \<open>Auto\<close>: of \<open>Datasets\<close>, then of \<open>Models\<close>), and the error carries, for each type, the
  URL, status, status text and diagnostic texts of one response only: the last one, to
  the repeated request of the URL with the download query.
\<close>

theorem failed_download_reports_last_attempts:
  assumes allfail: "\<forall>n u h. failed (net n u h)"
  shows
    "(repoType r \<noteq> Auto \<longrightarrow>
        (\<exists>new res.
           downloadHFFile net rawToken tr r =
             (tr @ new,
              Inl (DownloadFailed (res_status res) (res_statusText res)
                     (withDownloadQuery (resolve_url r (repoType r)))
                     (err_detail (err_attempt (withDownloadQuery (resolve_url r (repoType r))) res)))) \<and>
           in_order net tr (plan_for (sanitizeToken rawToken) (resolve_url r (repoType r))) new \<and>
           length new = length (plan_for (sanitizeToken rawToken) (resolve_url r (repoType r))) \<and>
           snd (snd (last new)) = Responded res)) \<and>
     (repoType r = Auto \<longrightarrow>
        (\<exists>newD newM resD resM.
           downloadHFFile net rawToken tr r =
             (tr @ newD @ newM,
              Inl (DownloadFailedAuto
                     (err_attempt (withDownloadQuery (resolve_url r Datasets)) resD)
                     (err_attempt (withDownloadQuery (resolve_url r Models)) resM))) \<and>
           in_order net tr (plan_for (sanitizeToken rawToken) (resolve_url r Datasets)) newD \<and>
           length newD = length (plan_for (sanitizeToken rawToken) (resolve_url r Datasets)) \<and>
           snd (snd (last newD)) = Responded resD \<and>
           in_order net (tr @ newD) (plan_for (sanitizeToken rawToken) (resolve_url r Models)) newM \<and>
           length newM = length (plan_for (sanitizeToken rawToken) (resolve_url r Models)) \<and>
           snd (snd (last newM)) = Responded resM))"
proof (intro conjI impI)
  assume t: "repoType r \<noteq> Auto"
  let ?u = "resolve_url r (repoType r)"
  from tryWithFallbackAuth_allfail [OF allfail, of "sanitizeToken rawToken" tr ?u]
  obtain new res where
    eq: "tryWithFallbackAuth net (sanitizeToken rawToken) tr ?u =
          (tr @ new, Inr (AttemptErr (err_attempt (withDownloadQuery ?u) res)))"
    and io: "in_order net tr (plan_for (sanitizeToken rawToken) ?u) new"
      "length new = length (plan_for (sanitizeToken rawToken) ?u)"
      "snd (snd (last new)) = Responded res"
    by blast
  from t have k: "repoType r = Datasets \<or> repoType r = Models" by (cases "repoType r") auto
  have "downloadHFFile net rawToken tr r =
      (tr @ new, Inl (DownloadFailed (res_status res) (res_statusText res) (withDownloadQuery ?u)
         (err_detail (err_attempt (withDownloadQuery ?u) res))))"
    using k eq unfolding downloadHFFile_def Let_def resolve_url_def
    by (auto simp: err_attempt_def)
  with io show "\<exists>new res.
           downloadHFFile net rawToken tr r =
             (tr @ new,
              Inl (DownloadFailed (res_status res) (res_statusText res)
                     (withDownloadQuery ?u) (err_detail (err_attempt (withDownloadQuery ?u) res)))) \<and>
           in_order net tr (plan_for (sanitizeToken rawToken) ?u) new \<and>
           length new = length (plan_for (sanitizeToken rawToken) ?u) \<and>
           snd (snd (last new)) = Responded res"
    by blast
next
  assume t: "repoType r = Auto"
  let ?d = "resolve_url r Datasets" and ?m = "resolve_url r Models"
  let ?tok = "sanitizeToken rawToken"
  from tryWithFallbackAuth_allfail [OF allfail, of ?tok tr ?d]
  obtain newD resD where
    eqD: "tryWithFallbackAuth net ?tok tr ?d =
          (tr @ newD, Inr (AttemptErr (err_attempt (withDownloadQuery ?d) resD)))"
    and ioD: "in_order net tr (plan_for ?tok ?d) newD"
      "length newD = length (plan_for ?tok ?d)" "snd (snd (last newD)) = Responded resD"
    by blast
  from tryWithFallbackAuth_allfail [OF allfail, of ?tok "tr @ newD" ?m]
  obtain newM resM where
    eqM: "tryWithFallbackAuth net ?tok (tr @ newD) ?m =
          ((tr @ newD) @ newM, Inr (AttemptErr (err_attempt (withDownloadQuery ?m) resM)))"
    and ioM: "in_order net (tr @ newD) (plan_for ?tok ?m) newM"
      "length newM = length (plan_for ?tok ?m)" "snd (snd (last newM)) = Responded resM"
    by blast
  have "downloadHFFile net rawToken tr r =
      (tr @ newD @ newM,
       Inl (DownloadFailedAuto (err_attempt (withDownloadQuery ?d) resD)
              (err_attempt (withDownloadQuery ?m) resM)))"
    using t eqD eqM unfolding downloadHFFile_def Let_def resolve_url_def
    by simp
  with ioD ioM show "\<exists>newD newM resD resM.
           downloadHFFile net rawToken tr r =
             (tr @ newD @ newM,
              Inl (DownloadFailedAuto
                     (err_attempt (withDownloadQuery ?d) resD)
                     (err_attempt (withDownloadQuery ?m) resM))) \<and>
           in_order net tr (plan_for ?tok ?d) newD \<and>
           length newD = length (plan_for ?tok ?d) \<and>
           snd (snd (last newD)) = Responded resD \<and>
           in_order net (tr @ newD) (plan_for ?tok ?m) newM \<and>
           length newM = length (plan_for ?tok ?m) \<and>
           snd (snd (last newM)) = Responded resM"
    by blast
qed

theorem failed_download_reports_last_attempts_witness:
  "failed (denying_network 0 ''u'' None) \<and>
   snd (downloadHFFile denying_network ''hf_secret'' [] example_ref) =
     Inl (DownloadFailed 401 ''Unauthorized''
       ''https://huggingface.co/datasets/acme/cats/resolve/main/data/train.parquet?download=true''
       ''Invalid credentials'') \<and>
   length (fst (downloadHFFile denying_network ''hf_secret'' [] example_ref)) = 5 \<and>
   snd (downloadHFFile denying_network [] [] (example_ref\<lparr>repoType := Auto\<rparr>)) =
     Inl (DownloadFailedAuto
       \<lparr> err_status = 404, err_statusText = ''Not Found'',
         err_url =
           ''https://huggingface.co/datasets/acme/cats/resolve/main/data/train.parquet?download=true'',
         err_hfErrorMessage = ''Repository not found'', err_bodyPreview = [] \<rparr>
       \<lparr> err_status = 404, err_statusText = ''Not Found'',
         err_url = ''https://huggingface.co/acme/cats/resolve/main/data/train.parquet?download=true'',
         err_hfErrorMessage = ''Repository not found'', err_bodyPreview = [] \<rparr>) \<and>
   length (fst (downloadHFFile denying_network [] [] (example_ref\<lparr>repoType := Auto\<rparr>))) = 6"
proof -
  have allfail: "\<forall>n u h. failed (denying_network n u h)"
    by (simp add: failed_def denying_network_def res_ok_def)
  have t: "repoType example_ref \<noteq> Auto" "repoType (example_ref\<lparr>repoType := Auto\<rparr>) = Auto"
    by (simp_all add: example_ref_def)
  have tok: "sanitizeToken ''hf_secret'' \<noteq> []" "sanitizeToken [] = []" by code_simp+
  from failed_download_reports_last_attempts [OF allfail, of example_ref "''hf_secret''" "[]"] t(1)
  obtain new where
    "fst (downloadHFFile denying_network ''hf_secret'' [] example_ref) = new"
    "length new = length (plan_for (sanitizeToken ''hf_secret'')
       (resolve_url example_ref (repoType example_ref)))"
    by auto
  then have five: "length (fst (downloadHFFile denying_network ''hf_secret'' [] example_ref)) = 5"
    using tok by (simp add: plan_for_def auth_plan_def)
  from failed_download_reports_last_attempts
    [OF allfail, of "example_ref\<lparr>repoType := Auto\<rparr>" "[]" "[]"] t(2)
  obtain newD newM where
    "fst (downloadHFFile denying_network [] [] (example_ref\<lparr>repoType := Auto\<rparr>)) = newD @ newM"
    "length newD = length (plan_for (sanitizeToken [])
       (resolve_url (example_ref\<lparr>repoType := Auto\<rparr>) Datasets))"
    "length newM = length (plan_for (sanitizeToken [])
       (resolve_url (example_ref\<lparr>repoType := Auto\<rparr>) Models))"
    by auto
  then have six:
    "length (fst (downloadHFFile denying_network [] [] (example_ref\<lparr>repoType := Auto\<rparr>))) = 6"
    using tok by (simp add: plan_for_def noauth_plan_def)
  have auto_error:
    "snd (downloadHFFile denying_network [] [] (example_ref\<lparr>repoType := Auto\<rparr>)) =
     Inl (DownloadFailedAuto
       \<lparr> err_status = 404, err_statusText = ''Not Found'',
         err_url =
           ''https://huggingface.co/datasets/acme/cats/resolve/main/data/train.parquet?download=true'',
         err_hfErrorMessage = ''Repository not found'', err_bodyPreview = [] \<rparr>
       \<lparr> err_status = 404, err_statusText = ''Not Found'',
         err_url = ''https://huggingface.co/acme/cats/resolve/main/data/train.parquet?download=true'',
         err_hfErrorMessage = ''Repository not found'', err_bodyPreview = [] \<rparr>)"
    by code_simp
  from allfail example_download_error five auto_error six show ?thesis by blast
qed

text \<open>
  Claim C4 as stated fails: with a token that the host refuses (401) on a repository it
  does not show without one (404), the error carries the 401 of the last request; the
  attempt on the plain URL without the header, its status 404 and its diagnostic header
  are in the trace and not in the error.
\<close>

theorem failed_download_drops_earlier_attempts:
  "snd (downloadHFFile denying_network ''hf_secret'' [] example_ref) =
     Inl (DownloadFailed 401 ''Unauthorized''
       ''https://huggingface.co/datasets/acme/cats/resolve/main/data/train.parquet?download=true''
       ''Invalid credentials'') \<and>
   (''https://huggingface.co/datasets/acme/cats/resolve/main/data/train.parquet'', 404) \<in>
     set (attempted (fst (downloadHFFile denying_network ''hf_secret'' [] example_ref))) \<and>
   (''https://huggingface.co/datasets/acme/cats/resolve/main/data/train.parquet'', 404) \<notin>
     set (reported_attempts (DownloadFailed 401 ''Unauthorized''
       ''https://huggingface.co/datasets/acme/cats/resolve/main/data/train.parquet?download=true''
       ''Invalid credentials'')) \<and>
   ''Repository not found'' \<in>
     set (diagnostic_headers (fst (downloadHFFile denying_network ''hf_secret'' [] example_ref))) \<and>
   ''Repository not found'' \<notin>
     set (reported_texts (DownloadFailed 401 ''Unauthorized''
       ''https://huggingface.co/datasets/acme/cats/resolve/main/data/train.parquet?download=true''
       ''Invalid credentials''))"
  by code_simp

text \<open>
  Claim C5.  When the download succeeded and its content-encoding or content-type names
  gzip: if decompression succeeds, the decompressed bytes are the ones validated and
  returned (so a body that is not a parquet file, and decompresses to one, is accepted);
  if decompression throws, the original bytes are validated and returned.
\<close>

theorem gunzip_before_validation:
  assumes dl: "downloadHFFile net rawToken tr r = (tr', Inr out)"
    and gz: "indicates_gzip (ok_contentEncoding out) (ok_contentType out)"
  shows
    "(\<forall>d. gunzipSync (ok_buf out) = Some d \<longrightarrow>
        downloadHFFileAsBuffer net gunzipSync rawToken tr r True =
          (tr', if isParquetBuffer (Some d) then Inr d
                else Inl (InvalidParquet (ok_url out) (ok_finalUrl out) (ok_contentType out)))) \<and>
     (gunzipSync (ok_buf out) = None \<longrightarrow>
        downloadHFFileAsBuffer net gunzipSync rawToken tr r True =
          (tr', if isParquetBuffer (Some (ok_buf out)) then Inr (ok_buf out)
                else Inl (InvalidParquet (ok_url out) (ok_finalUrl out) (ok_contentType out))))"
  using assms by (simp add: downloadHFFileAsBuffer_def maybeGunzip_def)

lemma gzip_download:
  "downloadHFFile gzip_network [] tr example_ref =
     (tr @ [(''https://huggingface.co/datasets/acme/cats/resolve/main/data/train.parquet'', None,
             gzip_network (length tr) ''https://huggingface.co/datasets/acme/cats/resolve/main/data/train.parquet'' None)],
      Inr (ok_attempt ''https://huggingface.co/datasets/acme/cats/resolve/main/data/train.parquet''
             \<lparr> res_status = 200, res_statusText = ''OK'',
               res_url = ''https://huggingface.co/datasets/acme/cats/resolve/main/data/train.parquet'',
               res_contentType = Some ''application/octet-stream'',
               res_contentEncoding = Some ''GZIP'', res_xErrorMessage = None,
               res_body = (if length tr = 0 then [0x1F, 0x8B, 0x08, 0x00]
                           else [0x50, 0x41, 0x52, 0x31, 0x50, 0x41, 0x52, 0x31]),
               res_text = [] \<rparr>))"
proof -
  have tok: "sanitizeToken [] = []" by code_simp
  have rv: "encodeURIComponent ''main'' = ''main''" by code_simp
  have fp: "encodeHFPath ''data/train.parquet'' = ''data/train.parquet''" by code_simp
  have f: "\<not> failed (gzip_network n u h)" for n u h
    by (simp add: failed_def gzip_network_def res_ok_def)
  show ?thesis
    unfolding downloadHFFile_def Let_def
    by (simp add: example_ref_def tok rv fp tryWithFallbackAuth_notoken buildUrl_def
        attempt_of_def gzip_network_def res_ok_def failed_def)
qed

theorem gunzip_before_validation_witness:
  "\<not> isParquetBuffer (Some [0x1F, 0x8B, 0x08, 0x00]) \<and>
   snd (downloadHFFileAsBuffer gzip_network example_gunzip [] [] example_ref True) =
     Inr [0x50, 0x41, 0x52, 0x31, 0x50, 0x41, 0x52, 0x31] \<and>
   example_gunzip [0x50, 0x41, 0x52, 0x31, 0x50, 0x41, 0x52, 0x31] = None \<and>
   snd (downloadHFFileAsBuffer gzip_network example_gunzip [] [(''u'', None, Rejected)]
          example_ref True) =
     Inr [0x50, 0x41, 0x52, 0x31, 0x50, 0x41, 0x52, 0x31]"
proof -
  have gz: "indicates_gzip (Some ''GZIP'') (Some ''application/octet-stream'')" by code_simp
  have p: "isParquetBuffer (Some [0x50, 0x41, 0x52, 0x31, 0x50, 0x41, 0x52, 0x31])"
    "\<not> isParquetBuffer (Some [0x1F, 0x8B, 0x08, 0x00])"
    by (simp_all add: isParquetBuffer_def toString_ascii_def PAR1_def)
  have g: "example_gunzip [0x1F, 0x8B, 0x08, 0x00] =
      Some [0x50, 0x41, 0x52, 0x31, 0x50, 0x41, 0x52, 0x31]"
    "example_gunzip [0x50, 0x41, 0x52, 0x31, 0x50, 0x41, 0x52, 0x31] = None"
    by (simp_all add: example_gunzip_def)
  from gunzip_before_validation [OF gzip_download [of "[]"], of example_gunzip] gz g(1) p(1)
  have 1: "snd (downloadHFFileAsBuffer gzip_network example_gunzip [] [] example_ref True) =
      Inr [0x50, 0x41, 0x52, 0x31, 0x50, 0x41, 0x52, 0x31]"
    by (simp add: ok_attempt_def)
  from gunzip_before_validation [OF gzip_download [of "[(''u'', None, Rejected)]"], of example_gunzip]
    gz g(2) p(1)
  have 2: "snd (downloadHFFileAsBuffer gzip_network example_gunzip [] [(''u'', None, Rejected)]
      example_ref True) = Inr [0x50, 0x41, 0x52, 0x31, 0x50, 0x41, 0x52, 0x31]"
    by (simp add: ok_attempt_def)
  from 1 2 p(2) g(2) show ?thesis by blast
qed

end
